theory Spec2Isabelle
  imports Complex_Main
begin

section \<open>Floating-point values and arrays\<close>

text \<open>
  The weights, bounds and losses of the program are IEEE-754 doubles held in numpy arrays.
  The program itself only compares and copies them (all arithmetic on them happens inside
  the neural-network framework it calls), so a double is modelled by its kind: not-a-number,
  an infinity, or a finite value, the finite ones being read as real numbers. Signed zeros
  are identified; no comparison of the program distinguishes them.
\<close>

datatype fl = NaN | NInf | Fin real | PInf

text \<open>IEEE comparisons: every comparison with \<open>NaN\<close> is false.\<close>

fun fl_lt :: "fl \<Rightarrow> fl \<Rightarrow> bool" where
  "fl_lt NaN b = False"
| "fl_lt a NaN = False"
| "fl_lt a NInf = False"
| "fl_lt NInf b = True"
| "fl_lt PInf b = False"
| "fl_lt (Fin x) PInf = True"
| "fl_lt (Fin x) (Fin y) = (x < y)"

definition fl_gt :: "fl \<Rightarrow> fl \<Rightarrow> bool" where
  "fl_gt a b = fl_lt b a"

definition fl_le :: "fl \<Rightarrow> fl \<Rightarrow> bool" where
  "fl_le a b = (a \<noteq> NaN \<and> b \<noteq> NaN \<and> \<not> fl_lt b a)"

fun isfinite :: "fl \<Rightarrow> bool" where
  "isfinite (Fin x) = True"
| "isfinite a = False"

text \<open>
  \<open>np.clip\<close> on doubles is numpy's \<open>_NPY_CLIP(x, min, max) = _NPY_MIN(_NPY_MAX(x, min), max)\<close>
  with \<open>_NPY_MAX(a, b) = isnan(a) ? a : (a > b ? a : b)\<close> and
  \<open>_NPY_MIN(a, b) = isnan(a) ? a : (a < b ? a : b)\<close>.
\<close>

definition npy_max :: "fl \<Rightarrow> fl \<Rightarrow> fl" where
  "npy_max a b = (if a = NaN then a else if fl_gt a b then a else b)"

definition npy_min :: "fl \<Rightarrow> fl \<Rightarrow> fl" where
  "npy_min a b = (if a = NaN then a else if fl_lt a b then a else b)"

definition np_clip :: "fl \<Rightarrow> fl \<Rightarrow> fl \<Rightarrow> fl" where
  "np_clip x lo hi = npy_min (npy_max x lo) hi"

text \<open>
  A numpy array is one-dimensional (the bound vectors, the intercepts) or two-dimensional
  (the data and the weight matrices: a list of rows, with the number of columns kept
  explicitly so that an array without rows still has a shape).
\<close>

datatype ndarray = Vec "fl list" | Mat nat "fl list list"

fun shape0 :: "ndarray \<Rightarrow> nat" where
  "shape0 (Vec xs) = length xs"
| "shape0 (Mat m rows) = length rows"

fun shape_last :: "ndarray \<Rightarrow> nat" where
  "shape_last (Vec xs) = length xs"
| "shape_last (Mat m rows) = m"

fun all_finite :: "ndarray \<Rightarrow> bool" where
  "all_finite (Vec xs) = list_all isfinite xs"
| "all_finite (Mat m rows) = list_all (list_all isfinite) rows"

section \<open>Exceptions and warnings\<close>

datatype exn =
    KeyboardInterrupt
  | IndexError
  | AttributeError
  | AssertionError
  | ValueError string

datatype warning =
    BatchSizeClipped
  | MaxIterReached int
  | TrainingInterrupted

text \<open>
  A statement that may raise returns \<open>Inl (e, s)\<close>, the exception together with the state
  as the in-place mutations have left it when the exception was raised, or \<open>Inr v\<close>.
\<close>

type_synonym ('s, 'a) res = "(exn \<times> 's) + 'a"

definition bind_res :: "('s, 'a) res \<Rightarrow> ('a \<Rightarrow> ('s, 'b) res) \<Rightarrow> ('s, 'b) res" where
  "bind_res r f = (case r of Inl e \<Rightarrow> Inl e | Inr v \<Rightarrow> f v)"

section \<open>The clipping step\<close>

text \<open>
  \<open>_update_coef_using_constrain(self, coef_grads)\<close>: the argument is the parameter list
  \<open>self.coefs_ + self.intercepts_\<close>; for every index \<open>coef_idx\<close> of
  \<open>zip(self.min_coef_, self.max_coef_)\<close> the item \<open>coef_grads[0][coef_idx]\<close> (a row of a
  matrix, an entry of a vector) is replaced by its clipped value. An index outside the
  first array raises IndexError, the rows before it staying clipped.
\<close>

fun clip_item :: "ndarray \<Rightarrow> nat \<Rightarrow> fl \<Rightarrow> fl \<Rightarrow> ndarray option" where
  "clip_item (Mat m rows) i lo hi =
     (if i < length rows then Some (Mat m (rows[i := map (\<lambda>x. np_clip x lo hi) (rows ! i)]))
      else None)"
| "clip_item (Vec xs) i lo hi =
     (if i < length xs then Some (Vec (xs[i := np_clip (xs ! i) lo hi])) else None)"

fun clip_rows :: "nat \<Rightarrow> (fl \<times> fl) list \<Rightarrow> ndarray list \<Rightarrow> (ndarray list, ndarray list) res" where
  "clip_rows coef_idx [] params = Inr params"
| "clip_rows coef_idx ((min_coef, max_coef) # bounds) params =
     (case params of
        [] \<Rightarrow> Inl (IndexError, params)
      | p # ps \<Rightarrow>
          (case clip_item p coef_idx min_coef max_coef of
             None \<Rightarrow> Inl (IndexError, params)
           | Some p' \<Rightarrow> clip_rows (Suc coef_idx) bounds (p' # ps)))"

definition update_coef_using_constrain ::
    "fl list \<Rightarrow> fl list \<Rightarrow> ndarray list \<Rightarrow> (ndarray list, ndarray list) res" where
  "update_coef_using_constrain min_coef max_coef coef_grads =
     clip_rows 0 (zip min_coef max_coef) coef_grads"

section \<open>The estimator\<close>

datatype solver = Sgd | Adam | Lbfgs

datatype batch_size_param = Auto | Size int

datatype layer_sizes = Scalar int | Sizes "int list"

text \<open>The constructor arguments that the training code reads.\<close>

record hyper =
  hidden_layer_sizes :: layer_sizes
  solver :: solver
  learning_rate_init :: fl
  learning_rate :: string
  momentum :: fl
  nesterovs_momentum :: bool
  power_t :: fl
  beta_1 :: fl
  beta_2 :: fl
  epsilon :: fl
  batch_size :: batch_size_param
  max_iter :: int
  tol :: fl
  verbose :: bool
  warm_start :: bool
  early_stopping :: bool
  validation_fraction :: fl
  n_iter_no_change :: int
  random_state :: "nat option"

datatype event = Warn warning | PrintIteration int fl

text \<open>
  The attributes of a fitted estimator. \<open>'o\<close> is the state of the framework's optimizer
  object, \<open>'e\<close> stands for the attributes that only the framework reads and writes
  (validation scores, best loss, label binarizer). An attribute that may be missing is an
  option. \<open>emitted\<close> collects the warnings and printed lines in the order they are emitted.
  \<open>sigint\<close> is not an attribute but the environment: when it is \<open>Some k\<close>, the user's
  interrupt arrives at the \<open>k\<close>-th interruption point that the training loop passes from
  now on (counting from 0); \<open>None\<close> means that no interrupt arrives.
\<close>

record ('o, 'e) attrs =
  coefs :: "ndarray list"
  intercepts :: "ndarray list"
  n_iter :: int
  t :: int
  loss :: fl
  loss_curve :: "fl list"
  no_improvement_count :: int
  best_coefs :: "ndarray list option"
  best_intercepts :: "ndarray list option"
  optimizer :: "'o option"
  framework_attrs :: 'e
  emitted :: "event list"
  sigint :: "nat option"

datatype stop_msg = ValidationScoreMsg fl int | TrainingLossMsg fl int

text \<open>
  The code that the training loop calls and that lies outside the repository's sources
  (scikit-learn's multilayer perceptron base class, its optimizers and utilities, and the
  double arithmetic of the loss bookkeeping) is a parameter of the model; \<open>'r\<close> is the type
  of numpy's random states. Each function receives what the callee reads and returns what
  it writes:
  \<^item> \<open>verify_coef\<close>: \<open>_verify_coef(feature_count, coef, value)\<close> of the repository's base
    class, whose source is not among the files here: it raises or returns the array of
    bounds for the given (or omitted) argument and default value;
  \<^item> \<open>validate_hyperparameters\<close>, \<open>validate_input\<close>: \<open>_validate_hyperparameters\<close> and
    \<open>_validate_input(X, y, incremental, reset)\<close>, which raise or return the checked data;
  \<^item> \<open>seeded\<close>: the \<open>RandomState\<close> that \<open>check_random_state\<close> builds from an integer seed;
  \<^item> \<open>initialize\<close>: \<open>_initialize(y, layer_units, dtype)\<close>, from the random state, the
    previous attributes (if any), the targets and the layer sizes to the fresh attributes
    and the advanced random state;
  \<^item> \<open>backprop\<close>: \<open>_backprop\<close>, from the current weights and a batch to the batch loss,
    the weight gradients and the intercept gradients (the activation, delta and gradient
    buffers passed along in the source are work space that the call overwrites);
  \<^item> \<open>sgd_optimizer\<close>, \<open>adam_optimizer\<close>: the optimizers' constructors;
  \<^item> \<open>update_params\<close>: \<open>update_params(params, grads)\<close>, which adds the optimizer's update to
    the arrays of \<open>params\<close> in place: the new optimizer state and the new arrays;
  \<^item> \<open>iteration_ends\<close>, \<open>trigger_stopping\<close>: the optimizer's methods of these names;
  \<^item> \<open>update_no_improvement_count\<close>: from the attributes, the early-stopping flag and the
    validation data to the attributes it writes: the counter, the best weights and
    intercepts, and the private attributes;
  \<^item> \<open>train_test_split\<close>: from a random state, the data, the test size and the
    stratification labels to \<open>(X_train, X_val, y_train, y_val)\<close>;
  \<^item> \<open>is_classifier\<close>, \<open>inverse_transform\<close>: \<open>is_classifier(self)\<close> and the label
    binarizer's \<open>inverse_transform\<close>;
  \<^item> \<open>fadd\<close>, \<open>fmul\<close>, \<open>fdiv\<close>: addition, multiplication and division of doubles.
\<close>

record ('o, 'e, 'r) collab =
  verify_coef :: "nat \<Rightarrow> ndarray option \<Rightarrow> fl \<Rightarrow> exn + ndarray"
  validate_hyperparameters :: "hyper \<Rightarrow> exn option"
  validate_input ::
    "hyper \<Rightarrow> ('o, 'e) attrs option \<Rightarrow> ndarray \<Rightarrow> ndarray \<Rightarrow> bool \<Rightarrow> bool \<Rightarrow> exn + ndarray \<times> ndarray"
  seeded :: "nat \<Rightarrow> 'r"
  initialize ::
    "hyper \<Rightarrow> 'r \<Rightarrow> ('o, 'e) attrs option \<Rightarrow> ndarray \<Rightarrow> int list \<Rightarrow> ('o, 'e) attrs \<times> 'r"
  backprop ::
    "hyper \<Rightarrow> ndarray list \<Rightarrow> ndarray list \<Rightarrow> ndarray \<Rightarrow> ndarray
      \<Rightarrow> fl \<times> ndarray list \<times> ndarray list"
  sgd_optimizer :: "ndarray list \<Rightarrow> fl \<Rightarrow> string \<Rightarrow> fl \<Rightarrow> bool \<Rightarrow> fl \<Rightarrow> 'o"
  adam_optimizer :: "ndarray list \<Rightarrow> fl \<Rightarrow> fl \<Rightarrow> fl \<Rightarrow> fl \<Rightarrow> 'o"
  update_params :: "'o \<Rightarrow> ndarray list \<Rightarrow> ndarray list \<Rightarrow> 'o \<times> ndarray list"
  iteration_ends :: "'o \<Rightarrow> int \<Rightarrow> 'o"
  trigger_stopping :: "'o \<Rightarrow> stop_msg \<Rightarrow> bool \<Rightarrow> bool \<times> 'o"
  update_no_improvement_count ::
    "hyper \<Rightarrow> ('o, 'e) attrs \<Rightarrow> bool \<Rightarrow> (ndarray \<times> ndarray) option
      \<Rightarrow> int \<times> ndarray list option \<times> ndarray list option \<times> 'e"
  train_test_split ::
    "'r \<Rightarrow> ndarray \<Rightarrow> ndarray \<Rightarrow> fl \<Rightarrow> ndarray option
      \<Rightarrow> ndarray \<times> ndarray \<times> ndarray \<times> ndarray"
  is_classifier :: bool
  inverse_transform :: "'e \<Rightarrow> ndarray \<Rightarrow> ndarray"
  fadd :: "fl \<Rightarrow> fl \<Rightarrow> fl"
  fmul :: "fl \<Rightarrow> fl \<Rightarrow> fl"
  fdiv :: "fl \<Rightarrow> fl \<Rightarrow> fl"

section \<open>Batches\<close>

text \<open>
  \<open>sklearn.utils.gen_batches(n, batch_size)\<close> with its default \<open>min_batch_size = 0\<close>:
  \<^verbatim>\<open>
    start = 0
    for _ in range(int(n // batch_size)):
        end = start + batch_size
        if end + min_batch_size > n: continue
        yield slice(start, end)
        start = end
    if start < n: yield slice(start, n)
  \<close>
  A batch size of zero is an error there (a division by zero, or the argument check of
  the later versions).
\<close>

fun gen_full :: "nat \<Rightarrow> nat \<Rightarrow> nat \<Rightarrow> nat \<Rightarrow> (nat \<times> nat) list \<times> nat" where
  "gen_full 0 start bs n = ([], start)"
| "gen_full (Suc k) start bs n =
     (let end = start + bs in
      if end > n then gen_full k start bs n
      else (case gen_full k end bs n of (sls, start') \<Rightarrow> ((start, end) # sls, start')))"

definition gen_batches :: "nat \<Rightarrow> nat \<Rightarrow> exn + (nat \<times> nat) list" where
  "gen_batches n bs =
     (if bs = 0 then Inl (ValueError ''gen_batches: batch_size'')
      else (case gen_full (n div bs) 0 bs n of
              (sls, start) \<Rightarrow> Inr (sls @ (if start < n then [(start, n)] else []))))"

text \<open>\<open>a[slice(start, stop)]\<close> along the first axis, for \<open>0 \<le> start \<le> stop\<close>.\<close>

fun slice_rows :: "ndarray \<Rightarrow> nat \<times> nat \<Rightarrow> ndarray" where
  "slice_rows (Vec xs) (start, stop) = Vec (take (stop - start) (drop start xs))"
| "slice_rows (Mat m rows) (start, stop) = Mat m (take (stop - start) (drop start rows))"

text \<open>
  The batch size of lines 161 to 169: \<open>min(200, n_samples)\<close> for \<open>"auto"\<close>, otherwise
  \<open>np.clip(self.batch_size, 1, n_samples)\<close>, on integers \<open>min(max(batch_size, 1), n_samples)\<close>,
  after a warning when the configured value is outside the range.
\<close>

definition resolve_batch_size :: "batch_size_param \<Rightarrow> nat \<Rightarrow> warning list \<times> int" where
  "resolve_batch_size b n_samples =
     (case b of
        Auto \<Rightarrow> ([], min 200 (int n_samples))
      | Size k \<Rightarrow>
          ((if k < 1 \<or> k > int n_samples then [BatchSizeClipped] else []),
           min (max k 1) (int n_samples)))"

section \<open>The training loop\<close>

text \<open>
  An interruption point: the user's interrupt, if it is due, is raised here as
  KeyboardInterrupt. The model places one before backpropagation, before the optimizer's
  update, before the clipping, before the bookkeeping at the end of an epoch, before the
  update of the no-improvement counter, before the optimizer's end-of-iteration call and
  before the optimizer is asked whether to stop.
\<close>

definition checkpoint :: "('o, 'e) attrs \<Rightarrow> (('o, 'e) attrs, ('o, 'e) attrs) res" where
  "checkpoint s =
     (case sigint s of
        None \<Rightarrow> Inr s
      | Some k \<Rightarrow>
          (case k of
             0 \<Rightarrow> Inl (KeyboardInterrupt, s\<lparr>sigint := None\<rparr>)
           | Suc j \<Rightarrow> Inr (s\<lparr>sigint := Some j\<rparr>)))"

text \<open>Reading \<open>self._optimizer\<close> raises AttributeError when the attribute is missing.\<close>

definition with_optimizer ::
    "('o, 'e) attrs \<Rightarrow> ('o \<Rightarrow> (('o, 'e) attrs, 'a) res) \<Rightarrow> (('o, 'e) attrs, 'a) res" where
  "with_optimizer s f = (case optimizer s of None \<Rightarrow> Inl (AttributeError, s) | Some opt \<Rightarrow> f opt)"

text \<open>
  \<open>params = self.coefs_ + self.intercepts_\<close> is a list of the very arrays that the two
  attributes hold, so a change made to an array of \<open>params\<close> in place is a change of the
  attribute: the first \<open>len(self.coefs_)\<close> arrays are the weights, the others the intercepts.
\<close>

definition store_params :: "ndarray list \<Rightarrow> ('o, 'e) attrs \<Rightarrow> ('o, 'e) attrs" where
  "store_params params s =
     s\<lparr>coefs := take (length (coefs s)) params, intercepts := drop (length (coefs s)) params\<rparr>"

text \<open>
  \<open>for x in xs: body\<close> over a state, and \<open>for it in range(n): body\<close> where the body may
  \<open>break\<close> (it returns \<open>True\<close> with the state then).
\<close>

fun for_each :: "'a list \<Rightarrow> ('a \<Rightarrow> 'b \<Rightarrow> ('s, 'b) res) \<Rightarrow> 'b \<Rightarrow> ('s, 'b) res" where
  "for_each [] body v = Inr v"
| "for_each (x # xs) body v = bind_res (body x v) (for_each xs body)"

fun for_range :: "nat \<Rightarrow> ('s \<Rightarrow> ('s, bool \<times> 's) res) \<Rightarrow> 's \<Rightarrow> ('s, 's) res" where
  "for_range 0 body s = Inr s"
| "for_range (Suc k) body s =
     bind_res (body s) (\<lambda>(brk, s'). if brk then Inr s' else for_range k body s')"

text \<open>
  Line 195, \<open>self._optimizer.update_params(params, grads)\<close>, and line 196,
  \<open>self._update_coef_using_constrain(params)\<close>, as changes of the estimator.
\<close>

definition optimizer_step ::
    "('o, 'e, 'r) collab \<Rightarrow> ndarray list \<Rightarrow> ('o, 'e) attrs \<Rightarrow> (('o, 'e) attrs, ('o, 'e) attrs) res" where
  "optimizer_step C grads s =
     with_optimizer s (\<lambda>opt.
       case update_params C opt (coefs s @ intercepts s) grads of
         (opt', params') \<Rightarrow> Inr (store_params params' (s\<lparr>optimizer := Some opt'\<rparr>)))"

definition clip_params ::
    "fl list \<Rightarrow> fl list \<Rightarrow> ('o, 'e) attrs \<Rightarrow> (('o, 'e) attrs, ('o, 'e) attrs) res" where
  "clip_params min_coef max_coef s =
     (case update_coef_using_constrain min_coef max_coef (coefs s @ intercepts s) of
        Inl (e, params') \<Rightarrow> Inl (e, store_params params' s)
      | Inr params' \<Rightarrow> Inr (store_params params' s))"

text \<open>
  Lines 177 to 196, the body of the loop over the batches: backpropagation on the batch,
  the loss accumulated, the optimizer's update of all parameters with the gradients as
  backpropagation returned them, then the clipping of the first array of the parameter
  list.
\<close>

definition batch_step ::
    "('o, 'e, 'r) collab \<Rightarrow> hyper \<Rightarrow> fl list \<Rightarrow> fl list \<Rightarrow> ndarray \<Rightarrow> ndarray \<Rightarrow> nat \<times> nat
      \<Rightarrow> fl \<times> ('o, 'e) attrs \<Rightarrow> (('o, 'e) attrs, fl \<times> ('o, 'e) attrs) res" where
  "batch_step C h min_coef max_coef X y batch_slice st =
     (case st of (accumulated_loss, s0) \<Rightarrow>
      bind_res (checkpoint s0) (\<lambda>s1.
        case backprop C h (coefs s1) (intercepts s1)
               (slice_rows X batch_slice) (slice_rows y batch_slice) of
          (batch_loss, coef_grads, intercept_grads) \<Rightarrow>
            bind_res (checkpoint s1) (\<lambda>s2.
            bind_res (optimizer_step C (coef_grads @ intercept_grads) s2) (\<lambda>s3.
            bind_res (checkpoint s3) (\<lambda>s4.
            bind_res (clip_params min_coef max_coef s4) (\<lambda>s5.
              Inr (fadd C accumulated_loss
                     (fmul C batch_loss (Fin (real (snd batch_slice - fst batch_slice)))),
                   s5)))))))"

text \<open>Lines 198 to 204: the counters, the loss and the loss curve after the batches.\<close>

definition bookkeeping ::
    "('o, 'e, 'r) collab \<Rightarrow> hyper \<Rightarrow> ndarray \<Rightarrow> nat \<Rightarrow> fl \<Rightarrow> ('o, 'e) attrs \<Rightarrow> ('o, 'e) attrs" where
  "bookkeeping C h X n_samples accumulated_loss s =
     (let s1 = s\<lparr>n_iter := n_iter s + 1\<rparr>;
          s2 = s1\<lparr>loss := fdiv C accumulated_loss (Fin (real (shape0 X)))\<rparr>;
          s3 = s2\<lparr>t := t s2 + int n_samples\<rparr>;
          s4 = s3\<lparr>loss_curve := loss_curve s3 @ [loss s3]\<rparr>
      in if verbose h
         then s4\<lparr>emitted := emitted s4 @ [PrintIteration (n_iter s4) (loss s4)]\<rparr>
         else s4)"

text \<open>
  Lines 213 to 233, the rule on the no-improvement counter. The result says whether the
  loop over the epochs is left (\<open>break\<close>).
\<close>

definition no_improvement_rule ::
    "('o, 'e, 'r) collab \<Rightarrow> hyper \<Rightarrow> bool \<Rightarrow> ('o, 'e) attrs
      \<Rightarrow> (('o, 'e) attrs, bool \<times> ('o, 'e) attrs) res" where
  "no_improvement_rule C h early_stopping' s =
     (if no_improvement_count s > n_iter_no_change h then
        let msg = (if early_stopping' then ValidationScoreMsg (tol h) (n_iter_no_change h)
                   else TrainingLossMsg (tol h) (n_iter_no_change h))
        in bind_res (checkpoint s) (\<lambda>s1.
             with_optimizer s1 (\<lambda>opt.
               case trigger_stopping C opt msg (verbose h) of
                 (is_stopping, opt') \<Rightarrow>
                   if is_stopping then Inr (True, s1\<lparr>optimizer := Some opt'\<rparr>)
                   else Inr (False, s1\<lparr>optimizer := Some opt', no_improvement_count := 0\<rparr>)))
      else Inr (False, s))"

text \<open>Lines 198 to 243, what an epoch does after its batches.\<close>

definition epoch_end ::
    "('o, 'e, 'r) collab \<Rightarrow> hyper \<Rightarrow> bool \<Rightarrow> (ndarray \<times> ndarray) option \<Rightarrow> bool \<Rightarrow> ndarray \<Rightarrow> nat
      \<Rightarrow> fl \<times> ('o, 'e) attrs \<Rightarrow> (('o, 'e) attrs, bool \<times> ('o, 'e) attrs) res" where
  "epoch_end C h early_stopping' val incremental X n_samples st =
     (case st of (accumulated_loss, s0) \<Rightarrow>
      bind_res (checkpoint s0) (\<lambda>s1.
      bind_res (checkpoint (bookkeeping C h X n_samples accumulated_loss s1)) (\<lambda>s2.
        case update_no_improvement_count C h s2 early_stopping' val of
          (cnt, bc, bi, fw) \<Rightarrow>
            bind_res
              (checkpoint (s2\<lparr>no_improvement_count := cnt, best_coefs := bc,
                              best_intercepts := bi, framework_attrs := fw\<rparr>))
              (\<lambda>s3.
                with_optimizer s3 (\<lambda>opt.
                  bind_res
                    (no_improvement_rule C h early_stopping'
                       (s3\<lparr>optimizer := Some (iteration_ends C opt (t s3))\<rparr>))
                    (\<lambda>(brk, s4).
                      if brk then Inr (True, s4)
                      else if incremental then Inr (True, s4)
                      else if n_iter s4 = max_iter h
                      then Inr (False,
                             s4\<lparr>emitted := emitted s4 @ [Warn (MaxIterReached (max_iter h))]\<rparr>)
                      else Inr (False, s4)))))))"

text \<open>Lines 174 to 243, the body of the loop over the epochs.\<close>

definition epoch ::
    "('o, 'e, 'r) collab \<Rightarrow> hyper \<Rightarrow> fl list \<Rightarrow> fl list \<Rightarrow> bool \<Rightarrow> (ndarray \<times> ndarray) option \<Rightarrow> bool
      \<Rightarrow> ndarray \<Rightarrow> ndarray \<Rightarrow> nat \<Rightarrow> int
      \<Rightarrow> ('o, 'e) attrs \<Rightarrow> (('o, 'e) attrs, bool \<times> ('o, 'e) attrs) res" where
  "epoch C h min_coef max_coef early_stopping' val incremental X y n_samples batch_size' s =
     (case gen_batches n_samples (nat batch_size') of
        Inl e \<Rightarrow> Inl (e, s)
      | Inr batches \<Rightarrow>
          bind_res (for_each batches (batch_step C h min_coef max_coef X y) (Fin 0, s))
            (epoch_end C h early_stopping' val incremental X n_samples))"

text \<open>Lines 120 to 138: the optimizer is built unless an incremental fit already has one.\<close>

definition setup_optimizer ::
    "('o, 'e, 'r) collab \<Rightarrow> hyper \<Rightarrow> bool \<Rightarrow> ('o, 'e) attrs \<Rightarrow> ('o, 'e) attrs" where
  "setup_optimizer C h incremental s =
     (let params = coefs s @ intercepts s in
      if \<not> incremental \<or> optimizer s = None then
        (case solver h of
           Sgd \<Rightarrow>
             s\<lparr>optimizer := Some (sgd_optimizer C params (learning_rate_init h) (learning_rate h)
                                    (momentum h) (nesterovs_momentum h) (power_t h))\<rparr>
         | Adam \<Rightarrow>
             s\<lparr>optimizer := Some (adam_optimizer C params (learning_rate_init h) (beta_1 h)
                                    (beta_2 h) (epsilon h))\<rparr>
         | Lbfgs \<Rightarrow> s)
      else s)"

text \<open>
  Lines 140 to 156: the validation split. \<open>train_test_split\<close> is called without a
  \<open>random_state\<close>, so it shuffles with numpy's global random state, here \<open>g\<close>.
\<close>

definition validation_split ::
    "('o, 'e, 'r) collab \<Rightarrow> 'r \<Rightarrow> hyper \<Rightarrow> nat \<Rightarrow> bool \<Rightarrow> 'e \<Rightarrow> ndarray \<Rightarrow> ndarray
      \<Rightarrow> ndarray \<times> (ndarray \<times> ndarray) option \<times> ndarray" where
  "validation_split C g h n_outputs early_stopping' fw X y =
     (if early_stopping' then
        let should_stratify = (is_classifier C \<and> n_outputs = 1);
            stratify = (if should_stratify then Some y else None)
        in case train_test_split C g X y (validation_fraction h) stratify of
             (X_train, X_val, y_train, y_val) \<Rightarrow>
               (X_train,
                Some (X_val, if is_classifier C then inverse_transform C fw y_val else y_val),
                y_train)
      else (X, None, y))"

text \<open>Lines 247 to 250: the best weights are put back when early stopping is on.\<close>

definition restore_best :: "bool \<Rightarrow> ('o, 'e) attrs \<Rightarrow> (('o, 'e) attrs, ('o, 'e) attrs) res" where
  "restore_best early_stopping' s =
     (if early_stopping' then
        (case best_coefs s of
           None \<Rightarrow> Inl (AttributeError, s)
         | Some bc \<Rightarrow>
             (case best_intercepts s of
                None \<Rightarrow> Inl (AttributeError, s\<lparr>coefs := bc\<rparr>)
              | Some bi \<Rightarrow> Inr (s\<lparr>coefs := bc, intercepts := bi\<rparr>)))
      else Inr s)"

definition after_training :: "('o, 'e) attrs \<Rightarrow> (('o, 'e) attrs, ('o, 'e) attrs) res" where
  "after_training s = Inr s"

text \<open>
  Lines 171 to 245: the loop over the epochs inside \<open>try\<close>, and the handler, which turns
  a KeyboardInterrupt into a warning and lets every other exception pass.
\<close>

definition guarded_epochs ::
    "('o, 'e, 'r) collab \<Rightarrow> hyper \<Rightarrow> fl list \<Rightarrow> fl list \<Rightarrow> bool \<Rightarrow> (ndarray \<times> ndarray) option \<Rightarrow> bool
      \<Rightarrow> ndarray \<Rightarrow> ndarray \<Rightarrow> nat \<Rightarrow> int
      \<Rightarrow> ('o, 'e) attrs \<Rightarrow> (('o, 'e) attrs, ('o, 'e) attrs) res" where
  "guarded_epochs C h min_coef max_coef early_stopping' val incremental X y n_samples batch_size' s =
     (case for_range (nat (max_iter h))
             (epoch C h min_coef max_coef early_stopping' val incremental X y n_samples batch_size')
             s of
        Inl (e, s') \<Rightarrow>
          if e = KeyboardInterrupt
          then Inr (s'\<lparr>emitted := emitted s' @ [Warn TrainingInterrupted]\<rparr>)
          else Inl (e, s')
      | Inr s' \<Rightarrow> Inr s')"

text \<open>
  \<open>_fit_constrained_stochastic\<close>, lines 120 to 169, what precedes the loop: the optimizer,
  the validation split, the number of samples and the batch size. \<open>g\<close> is numpy's global
  random state and \<open>interrupt\<close> says at which interruption point of the loop, if any, the
  user interrupts. The result is the early-stopping flag, the validation data, the
  training data, \<open>n_samples\<close>, the batch size and the estimator as the loop finds it.
\<close>

definition before_training ::
    "('o, 'e, 'r) collab \<Rightarrow> 'r \<Rightarrow> nat option \<Rightarrow> hyper \<Rightarrow> nat \<Rightarrow> ndarray \<Rightarrow> ndarray \<Rightarrow> bool
      \<Rightarrow> ('o, 'e) attrs
      \<Rightarrow> bool \<times> (ndarray \<times> ndarray) option \<times> ndarray \<times> ndarray \<times> nat \<times> int \<times> ('o, 'e) attrs" where
  "before_training C g interrupt h n_outputs X y incremental s =
     (let s1 = setup_optimizer C h incremental s;
          early_stopping' = (early_stopping h \<and> \<not> incremental)
      in case validation_split C g h n_outputs early_stopping' (framework_attrs s1) X y of
           (X_train, val, y_train) \<Rightarrow>
             let n_samples = shape0 X_train in
             case resolve_batch_size (batch_size h) n_samples of
               (ws, batch_size') \<Rightarrow>
                 (early_stopping', val, X_train, y_train, n_samples, batch_size',
                  s1\<lparr>emitted := emitted s1 @ map Warn ws, sigint := interrupt\<rparr>))"

text \<open>
  \<open>_fit_constrained_stochastic\<close>: the preparation, the guarded loop, the best weights put
  back, \<open>_after_training\<close>.
\<close>

definition fit_constrained_stochastic ::
    "('o, 'e, 'r) collab \<Rightarrow> 'r \<Rightarrow> nat option \<Rightarrow> hyper \<Rightarrow> fl list \<Rightarrow> fl list \<Rightarrow> nat
      \<Rightarrow> ndarray \<Rightarrow> ndarray \<Rightarrow> bool
      \<Rightarrow> ('o, 'e) attrs \<Rightarrow> (('o, 'e) attrs, ('o, 'e) attrs) res" where
  "fit_constrained_stochastic C g interrupt h min_coef max_coef n_outputs X y incremental s =
     (case before_training C g interrupt h n_outputs X y incremental s of
        (early_stopping', val, X_train, y_train, n_samples, batch_size', s0) \<Rightarrow>
          bind_res
            (guarded_epochs C h min_coef max_coef early_stopping' val incremental
               X_train y_train n_samples batch_size' s0)
            (\<lambda>s2. bind_res (restore_best early_stopping' s2) after_training))"

section \<open>Fitting\<close>

text \<open>
  \<open>_constrained_fit\<close>, lines 37 to 70: the checks and the initialisation that precede the
  training. \<open>prev\<close> holds the attributes of an estimator that has been fitted before
  (\<open>hasattr(self, "coefs_")\<close>) and \<open>g\<close> is numpy's global random state, which
  \<open>check_random_state\<close> returns for \<open>random_state=None\<close>. The result is the global random
  state after the initialisation, \<open>n_outputs_\<close>, the checked data and the attributes that
  the training starts from.
\<close>

definition prepare_fit ::
    "('o, 'e, 'r) collab \<Rightarrow> 'r \<Rightarrow> hyper \<Rightarrow> ('o, 'e) attrs option \<Rightarrow> ndarray \<Rightarrow> ndarray \<Rightarrow> bool
      \<Rightarrow> exn + 'r \<times> nat \<times> ndarray \<times> ndarray \<times> ('o, 'e) attrs" where
  "prepare_fit C g h prev X y incremental =
     (let sizes = (case hidden_layer_sizes h of Scalar k \<Rightarrow> [k] | Sizes ks \<Rightarrow> ks) in
      case validate_hyperparameters C h of
        Some e \<Rightarrow> Inl e
      | None \<Rightarrow>
          if list_ex (\<lambda>k. k \<le> 0) sizes
          then Inl (ValueError ''hidden_layer_sizes must be > 0'')
          else
            let first_pass = (prev = None \<or> (\<not> warm_start h \<and> \<not> incremental)) in
            (case validate_input C h prev X y incremental first_pass of
               Inl e \<Rightarrow> Inl e
             | Inr (X1, y1) \<Rightarrow>
                 (case X1 of
                    Vec xs \<Rightarrow> Inl (ValueError ''not enough values to unpack'')
                  | Mat n_features rows \<Rightarrow>
                      let y2 = (case y1 of Vec ys \<Rightarrow> Mat 1 (map (\<lambda>v. [v]) ys) | Mat m r \<Rightarrow> y1);
                          n_outputs = shape_last y2;
                          layer_units = [int n_features] @ sizes @ [int n_outputs];
                          rs = (case random_state h of None \<Rightarrow> g | Some seed \<Rightarrow> seeded C seed)
                      in (case (if first_pass then None else prev) of
                            None \<Rightarrow>
                              (case initialize C h rs prev y2 layer_units of
                                 (s, rs') \<Rightarrow>
                                   Inr (if random_state h = None then rs' else g,
                                        n_outputs, X1, y2, s))
                          | Some s \<Rightarrow> Inr (g, n_outputs, X1, y2, s)))))"

text \<open>
  \<open>_constrained_fit\<close>, lines 85 to 106: the solver is asserted to be a stochastic one, the
  training runs, and the parameters it leaves are checked to be finite. \<open>min_coef\<close> and
  \<open>max_coef\<close> are the attributes \<open>min_coef_\<close> and \<open>max_coef_\<close> that \<open>fit\<close> has set, and
  \<open>emitted\<close> starts empty with the call. An exception that leaves the function is
  returned without the estimator.
\<close>

definition constrained_fit ::
    "('o, 'e, 'r) collab \<Rightarrow> 'r \<Rightarrow> nat option \<Rightarrow> hyper \<Rightarrow> fl list \<Rightarrow> fl list
      \<Rightarrow> ('o, 'e) attrs option \<Rightarrow> ndarray \<Rightarrow> ndarray \<Rightarrow> bool \<Rightarrow> exn + ('o, 'e) attrs" where
  "constrained_fit C g interrupt h min_coef max_coef prev X y incremental =
     (case prepare_fit C g h prev X y incremental of
        Inl e \<Rightarrow> Inl e
      | Inr (g', n_outputs, X1, y2, s) \<Rightarrow>
          if solver h = Sgd \<or> solver h = Adam then
            (case fit_constrained_stochastic C g' interrupt h min_coef max_coef
                    n_outputs X1 y2 incremental (s\<lparr>emitted := []\<rparr>) of
               Inl (e, s') \<Rightarrow> Inl e
             | Inr s' \<Rightarrow>
                 if list_all all_finite (coefs s' @ intercepts s') then Inr s'
                 else Inl (ValueError ''Solver produced non-finite parameter weights''))
          else Inl AssertionError)"

text \<open>\<open>ndarray.flatten()\<close>: the entries in row-major order.\<close>

fun flatten :: "ndarray \<Rightarrow> fl list" where
  "flatten (Vec xs) = xs"
| "flatten (Mat m rows) = concat rows"

text \<open>\<open>fit(X, y, min_coef=None, max_coef=None)\<close>.\<close>

definition fit ::
    "('o, 'e, 'r) collab \<Rightarrow> 'r \<Rightarrow> nat option \<Rightarrow> hyper \<Rightarrow> ('o, 'e) attrs option
      \<Rightarrow> ndarray \<Rightarrow> ndarray \<Rightarrow> ndarray option \<Rightarrow> ndarray option \<Rightarrow> exn + ('o, 'e) attrs" where
  "fit C g interrupt h prev X y min_coef max_coef =
     (let feature_count = shape_last X in
      case verify_coef C feature_count min_coef NInf of
        Inl e \<Rightarrow> Inl e
      | Inr lo \<Rightarrow>
          (case verify_coef C feature_count max_coef PInf of
             Inl e \<Rightarrow> Inl e
           | Inr hi \<Rightarrow>
               constrained_fit C g interrupt h (flatten lo) (flatten hi) prev X y False))"

section \<open>The unconstrained baseline\<close>






section \<open>The batch step as the overview of the spec words it\<close>

text \<open>
  The system overview of the spec has the wrapper overwrite ``the first layer's gradient
  values in place before they are applied'': the gradients of backpropagation are clipped
  and the optimizer then applies the clipped gradients. This is that reading of the batch
  step, for comparison with \<open>batch_step\<close>.
\<close>

definition batch_step_clipping_gradients ::
    "('o, 'e, 'r) collab \<Rightarrow> hyper \<Rightarrow> fl list \<Rightarrow> fl list \<Rightarrow> ndarray \<Rightarrow> ndarray \<Rightarrow> nat \<times> nat
      \<Rightarrow> fl \<times> ('o, 'e) attrs \<Rightarrow> (('o, 'e) attrs, fl \<times> ('o, 'e) attrs) res" where
  "batch_step_clipping_gradients C h min_coef max_coef X y batch_slice st =
     (case st of (accumulated_loss, s0) \<Rightarrow>
      bind_res (checkpoint s0) (\<lambda>s1.
        case backprop C h (coefs s1) (intercepts s1)
               (slice_rows X batch_slice) (slice_rows y batch_slice) of
          (batch_loss, coef_grads, intercept_grads) \<Rightarrow>
            bind_res (checkpoint s1) (\<lambda>s2.
              case update_coef_using_constrain min_coef max_coef
                     (coef_grads @ intercept_grads) of
                Inl (e, grads') \<Rightarrow> Inl (e, s2)
              | Inr grads' \<Rightarrow>
                  bind_res (optimizer_step C grads' s2) (\<lambda>s3.
                    Inr (fadd C accumulated_loss
                           (fmul C batch_loss (Fin (real (snd batch_slice - fst batch_slice)))),
                         s3)))))"

section \<open>Properties of results\<close>

text \<open>
  \<open>holds r Q E\<close>: if \<open>r\<close> is a value it satisfies \<open>Q\<close>, and if \<open>r\<close> is an exception, the
  exception and the state it leaves satisfy \<open>E\<close>. With \<open>E\<close> false everywhere this says that
  \<open>r\<close> is a value.
\<close>

definition holds :: "('s, 'a) res \<Rightarrow> ('a \<Rightarrow> bool) \<Rightarrow> (exn \<Rightarrow> 's \<Rightarrow> bool) \<Rightarrow> bool" where
  "holds r Q E = (case r of Inl (e, s) \<Rightarrow> E e s | Inr v \<Rightarrow> Q v)"

text \<open>
  \<open>in_bounds lo hi x\<close>: the double \<open>x\<close> lies in \<open>[lo, hi]\<close>. \<open>ordered_bounds\<close>: every lower
  bound is at most its upper bound (and neither is not-a-number).
\<close>

definition in_bounds :: "fl \<Rightarrow> fl \<Rightarrow> fl \<Rightarrow> bool" where
  "in_bounds lo hi x = (fl_le lo x \<and> fl_le x hi)"

definition ordered_bounds :: "fl list \<Rightarrow> fl list \<Rightarrow> bool" where
  "ordered_bounds min_coef max_coef = list_all (\<lambda>(lo, hi). fl_le lo hi) (zip min_coef max_coef)"

text \<open>
  \<open>first_layer_in\<close>: for every index \<open>i\<close> of the bounds, row \<open>i\<close> of the first weight matrix
  exists and all its entries lie in \<open>[min_coef[i], max_coef[i]]\<close>. \<open>first_layer_within\<close> is
  the same with not-a-number entries let through. Both say nothing when the list has no
  first matrix.
\<close>

definition first_layer_in :: "fl list \<Rightarrow> fl list \<Rightarrow> ndarray list \<Rightarrow> bool" where
  "first_layer_in min_coef max_coef cs =
     (case cs of
        Mat m rows # rest \<Rightarrow>
          list_all (\<lambda>i. i < length rows
                       \<and> list_all (in_bounds (min_coef ! i) (max_coef ! i)) (rows ! i))
            [0..<min (length min_coef) (length max_coef)]
      | _ \<Rightarrow> True)"

definition first_layer_within :: "fl list \<Rightarrow> fl list \<Rightarrow> ndarray list \<Rightarrow> bool" where
  "first_layer_within min_coef max_coef cs =
     (case cs of
        Mat m rows # rest \<Rightarrow>
          list_all (\<lambda>i. i < length rows
                       \<and> list_all (\<lambda>x. x = NaN \<or> in_bounds (min_coef ! i) (max_coef ! i) x) (rows ! i))
            [0..<min (length min_coef) (length max_coef)]
      | _ \<Rightarrow> True)"

text \<open>
  The shape of an array, and the contract of the optimizer that the in-place update
  \<open>param += update\<close> keeps the number and the shapes of the parameter arrays.
  \<open>rows_ge k cs\<close>: the first array of \<open>cs\<close> is a matrix with at least \<open>k\<close> rows.
\<close>

fun shape :: "ndarray \<Rightarrow> nat list" where
  "shape (Vec xs) = [length xs]"
| "shape (Mat m rows) = [length rows, m]"


definition rows_ge :: "nat \<Rightarrow> ndarray list \<Rightarrow> bool" where
  "rows_ge k cs = (case cs of Mat m rows # rest \<Rightarrow> k \<le> length rows | _ \<Rightarrow> False)"

text \<open>
  What a batch step keeps: the epoch counter and the emitted lines; without a pending
  interrupt none appears; an optimizer that is present stays present.
\<close>

definition batch_frame :: "('o, 'e) attrs \<Rightarrow> ('o, 'e) attrs \<Rightarrow> bool" where
  "batch_frame s s' =
     (n_iter s' = n_iter s \<and> emitted s' = emitted s
      \<and> (sigint s = None \<longrightarrow> sigint s' = None)
      \<and> (optimizer s \<noteq> None \<longrightarrow> optimizer s' \<noteq> None))"

text \<open>
  What the end of an epoch keeps: the weights and intercepts; the epoch counter has grown
  by \<open>d\<close>.
\<close>

definition end_frame :: "int \<Rightarrow> ('o, 'e) attrs \<Rightarrow> ('o, 'e) attrs \<Rightarrow> bool" where
  "end_frame d s s' =
     (coefs s' = coefs s \<and> intercepts s' = intercepts s \<and> n_iter s' = n_iter s + d
      \<and> (sigint s = None \<longrightarrow> sigint s' = None)
      \<and> (optimizer s \<noteq> None \<longrightarrow> optimizer s' \<noteq> None))"

definition end_exn :: "('o, 'e) attrs \<Rightarrow> exn \<Rightarrow> ('o, 'e) attrs \<Rightarrow> bool" where
  "end_exn s e s' =
     ((end_frame 0 s s' \<or> end_frame 1 s s') \<and> (sigint s = None \<longrightarrow> e \<noteq> KeyboardInterrupt))"







section \<open>A small instance of the framework\<close>

text \<open>
  To run the model on concrete data the parameters are instantiated with a toy framework:
  omitted bounds are the default value for every feature and given ones must have an
  entry per feature,
  the first weight matrix starts with a row \<open>[1/2]\<close> per input feature, the optimizer
  state counts the updates, an update subtracts from every entry of a parameter array the
  first entry of its gradient, the gradient of every parameter is the first feature of
  the first sample of the batch, a fitted estimator refuses data with more features than
  its first weight matrix has rows, the no-improvement counter grows by one per epoch, stopping is always
  triggered when asked for, and the validation split rotates the samples by the random
  state before it takes the first one for validation.
\<close>

fun map_array :: "(fl \<Rightarrow> fl) \<Rightarrow> ndarray \<Rightarrow> ndarray" where
  "map_array f (Vec xs) = Vec (map f xs)"
| "map_array f (Mat m rows) = Mat m (map (map f) rows)"

fun toy_add :: "fl \<Rightarrow> fl \<Rightarrow> fl" where
  "toy_add (Fin a) (Fin b) = Fin (a + b)"
| "toy_add a b = NaN"

fun toy_mul :: "fl \<Rightarrow> fl \<Rightarrow> fl" where
  "toy_mul (Fin a) (Fin b) = Fin (a * b)"
| "toy_mul a b = NaN"

fun toy_div :: "fl \<Rightarrow> fl \<Rightarrow> fl" where
  "toy_div (Fin a) (Fin b) = (if b = 0 then NaN else Fin (a / b))"
| "toy_div a b = NaN"

fun toy_sub :: "fl \<Rightarrow> fl \<Rightarrow> fl" where
  "toy_sub (Fin a) (Fin b) = Fin (a - b)"
| "toy_sub a b = NaN"

fun first_feature :: "ndarray \<Rightarrow> fl" where
  "first_feature (Mat m ((v # r) # rows)) = v"
| "first_feature a = Fin 0"

fun first_entry :: "ndarray \<Rightarrow> fl" where
  "first_entry (Mat m ((v # r) # rows)) = v"
| "first_entry (Vec (v # r)) = v"
| "first_entry a = Fin 0"

definition toy_attrs :: "(nat, unit) attrs" where
  "toy_attrs =
     \<lparr>coefs = [Mat 1 [[Fin (1 / 2)]]], intercepts = [Vec [Fin 0]], n_iter = 0, t = 0,
      loss = Fin 0, loss_curve = [], no_improvement_count = 0, best_coefs = None,
      best_intercepts = None, optimizer = None, framework_attrs = (), emitted = [],
      sigint = None\<rparr>"

fun toy_split :: "nat \<Rightarrow> ndarray \<Rightarrow> ndarray \<times> ndarray" where
  "toy_split g (Vec xs) = (Vec (drop 1 (rotate g xs)), Vec (take 1 (rotate g xs)))"
| "toy_split g (Mat m rows) = (Mat m (drop 1 (rotate g rows)), Mat m (take 1 (rotate g rows)))"

definition toy :: "(nat, unit, nat) collab" where
  "toy =
     \<lparr>verify_coef = (\<lambda>feature_count coef val.
        case coef of
          None \<Rightarrow> Inr (Vec (replicate feature_count val))
        | Some c \<Rightarrow>
            if length (flatten c) = feature_count then Inr c
            else Inl (ValueError ''malformed bound shape'')),
      validate_hyperparameters = (\<lambda>h. None),
      validate_input = (\<lambda>h prev X y incremental reset.
        if \<not> reset \<and> (case prev of None \<Rightarrow> False | Some p \<Rightarrow> \<not> rows_ge (shape_last X) (coefs p))
        then Inl (ValueError ''number of features'')
        else Inr (X, y)),
      seeded = (\<lambda>seed. seed),
      initialize = (\<lambda>h rs prev y layer_units.
        (toy_attrs\<lparr>coefs :=
           [Mat 1 (replicate (nat (case layer_units of [] \<Rightarrow> 0 | n # ns \<Rightarrow> n)) [Fin (1 / 2)])]\<rparr>,
         Suc rs)),
      backprop = (\<lambda>h cs bs X y.
        (Fin 1, map (map_array (\<lambda>v. first_feature X)) cs, map (map_array (\<lambda>v. first_feature X)) bs)),
      sgd_optimizer = (\<lambda>params lr sched mom nest pt. 0),
      adam_optimizer = (\<lambda>params lr b1 b2 eps. 0),
      update_params = (\<lambda>opt params grads.
        (Suc opt,
         map (\<lambda>i. map_array (\<lambda>v. toy_sub v (if i < length grads then first_entry (grads ! i) else Fin 0))
                    (params ! i))
           [0..<length params])),
      iteration_ends = (\<lambda>opt t. opt),
      trigger_stopping = (\<lambda>opt msg verbose. (True, opt)),
      update_no_improvement_count = (\<lambda>h s early_stopping val.
        (no_improvement_count s + 1, Some (coefs s), Some (intercepts s), ())),
      train_test_split = (\<lambda>g X y test_size stratify.
        (fst (toy_split g X), snd (toy_split g X), fst (toy_split g y), snd (toy_split g y))),
      is_classifier = False,
      inverse_transform = (\<lambda>fw y. y),
      fadd = toy_add, fmul = toy_mul, fdiv = toy_div\<rparr>"

definition toy_hyper :: hyper where
  "toy_hyper =
     \<lparr>hidden_layer_sizes = Sizes [], solver = Sgd, learning_rate_init = Fin 1,
      learning_rate = ''constant'', momentum = Fin 0, nesterovs_momentum = False,
      power_t = Fin (1 / 2), beta_1 = Fin 0, beta_2 = Fin 0, epsilon = Fin 0,
      batch_size = Auto, max_iter = 2, tol = Fin 0, verbose = False, warm_start = False,
      early_stopping = False, validation_fraction = Fin (1 / 10), n_iter_no_change = 10,
      random_state = Some 7\<rparr>"

definition toy_X :: ndarray where
  "toy_X = Mat 1 [[Fin 1], [Fin 2], [Fin 3]]"

definition toy_y :: ndarray where
  "toy_y = Vec [Fin 1, Fin 2, Fin 3]"


section \<open>Rules for results and loops\<close>

lemma holds_Inr [simp]: "holds (Inr v) Q E = Q v"
  by (simp add: holds_def)

lemma holds_Inl [simp]: "holds (Inl (e, s)) Q E = E e s"
  by (simp add: holds_def)

lemma holds_bind:
  assumes "holds r Q' E" and "\<And>v. Q' v \<Longrightarrow> holds (f v) Q E"
  shows "holds (bind_res r f) Q E"
  using assms by (cases r) (auto simp: bind_res_def)

lemma holds_weaken:
  assumes "holds r Q E" and "\<And>v. Q v \<Longrightarrow> Q' v" and "\<And>e s. E e s \<Longrightarrow> E' e s"
  shows "holds r Q' E'"
  using assms by (cases r) auto

lemma holds_conj:
  assumes "holds r Q1 E1" and "holds r Q2 E2"
  shows "holds r (\<lambda>v. Q1 v \<and> Q2 v) (\<lambda>e s. E1 e s \<and> E2 e s)"
  using assms by (cases r) auto

lemma holds_InrD: "holds r Q E \<Longrightarrow> r = Inr v \<Longrightarrow> Q v"
  by simp


lemma holds_for_each:
  assumes "Q v" and "\<And>x v. x \<in> set xs \<Longrightarrow> Q v \<Longrightarrow> holds (body x v) Q E"
  shows "holds (for_each xs body v) Q E"
  using assms
proof (induction xs arbitrary: v)
  case Nil
  then show ?case by simp
next
  case (Cons x xs)
  show ?case
    unfolding for_each.simps
  proof (rule holds_bind)
    show "holds (body x v) Q E" using Cons.prems by simp
  next
    fix v' assume "Q v'"
    then show "holds (for_each xs body v') Q E"
      using Cons.IH Cons.prems(2) by simp
  qed
qed

lemma holds_for_range:
  assumes "I 0 s"
    and "\<And>j s. j < k \<Longrightarrow> I j s \<Longrightarrow> holds (body s) (\<lambda>(b, s'). if b then Q s' else I (Suc j) s') E"
    and "\<And>s. I k s \<Longrightarrow> Q s"
  shows "holds (for_range k body s) Q E"
  using assms
proof (induction k arbitrary: I s)
  case 0
  then show ?case by simp
next
  case (Suc k)
  show ?case
    unfolding for_range.simps
  proof (rule holds_bind)
    show "holds (body s) (\<lambda>(b, s'). if b then Q s' else I (Suc 0) s') E"
      using Suc.prems(1,2) by simp
  next
    fix v :: "bool \<times> 'a"
    assume v: "case v of (b, s') \<Rightarrow> if b then Q s' else I (Suc 0) s'"
    obtain b s' where [simp]: "v = (b, s')" by (cases v)
    show "holds (case v of (brk, s') \<Rightarrow> if brk then Inr s' else for_range k body s') Q E"
    proof (cases b)
      case True
      then show ?thesis using v by simp
    next
      case False
      have "holds (for_range k body s') Q E"
      proof (rule Suc.IH[where I = "\<lambda>j. I (Suc j)"])
        show "I (Suc 0) s'" using v False by simp
        show "\<And>j s. j < k \<Longrightarrow> I (Suc j) s \<Longrightarrow>
             holds (body s) (\<lambda>(b, s'). if b then Q s' else I (Suc (Suc j)) s') E"
          using Suc.prems(2) by simp
        show "\<And>s. I (Suc k) s \<Longrightarrow> Q s" using Suc.prems(3) by simp
      qed
      then show ?thesis using False by simp
    qed
  qed
qed

lemma holds_for_range_inv:
  assumes "I s" and "\<And>s. I s \<Longrightarrow> holds (body s) (\<lambda>(b, s'). I s') E"
  shows "holds (for_range k body s) I E"
proof (rule holds_for_range[where I = "\<lambda>j. I"])
  show "I s" by fact
  fix j s assume "I s"
  from assms(2)[OF this] show "holds (body s) (\<lambda>(b, s'). if b then I s' else I s') E"
    by (rule holds_weaken) auto
qed simp

lemma holds_checkpoint:
  assumes "\<And>j. Q (s\<lparr>sigint := j\<rparr>)" and "E KeyboardInterrupt (s\<lparr>sigint := None\<rparr>)"
  shows "holds (checkpoint s) Q E"
proof (cases "sigint s")
  case None
  from assms(1)[of "sigint s"] have "Q s" by simp
  then show ?thesis using None by (simp add: checkpoint_def)
next
  case (Some k)
  then show ?thesis using assms by (cases k) (simp_all add: checkpoint_def)
qed

lemma checkpoint_quiet [simp]: "sigint s = None \<Longrightarrow> checkpoint s = Inr s"
  by (simp add: checkpoint_def)

lemma holds_with_optimizer:
  assumes "\<And>opt. optimizer s = Some opt \<Longrightarrow> holds (f opt) Q E" and "optimizer s = None \<Longrightarrow> E AttributeError s"
  shows "holds (with_optimizer s f) Q E"
  using assms by (cases "optimizer s") (simp_all add: with_optimizer_def)

section \<open>Batches and the batch size\<close>


lemma gen_full_eq:
  "0 < bs \<Longrightarrow> start + k * bs \<le> n \<Longrightarrow>
   gen_full k start bs n = (map (\<lambda>j. (start + j * bs, start + (j + 1) * bs)) [0..<k], start + k * bs)"
proof (induction k arbitrary: start)
  case 0
  then show ?case by simp
next
  case (Suc k)
  have le: "start + bs \<le> n" using Suc.prems by (simp add: algebra_simps) 
  have "(start + bs) + k * bs \<le> n" using Suc.prems by (simp add: algebra_simps)
  from Suc.IH[OF Suc.prems(1) this]
  have IH: "gen_full k (start + bs) bs n =
     (map (\<lambda>j. (start + bs + j * bs, start + bs + (j + 1) * bs)) [0..<k], start + bs + k * bs)" .
  have "[0..<Suc k] = 0 # map Suc [0..<k]"
    by (simp add: upt_conv_Cons map_Suc_upt del: upt_Suc)
  then have "map (\<lambda>j. (start + j * bs, start + (j + 1) * bs)) [0..<Suc k]
       = (start, start + bs) # map (\<lambda>j. (start + bs + j * bs, start + bs + (j + 1) * bs)) [0..<k]"
    by (simp add: algebra_simps comp_def del: upt_Suc)
  then show ?case using le IH by (simp add: algebra_simps del: upt_Suc)
qed

lemma gen_batches_eq:
  assumes "0 < bs"
  shows "gen_batches n bs = Inr (map (\<lambda>k. (k * bs, min ((k + 1) * bs) n)) [0..<(n + bs - 1) div bs])"
proof -
  let ?q = "n div bs"
  have q: "?q * bs \<le> n" by simp
  have full: "gen_full ?q 0 bs n = (map (\<lambda>j. (j * bs, (j + 1) * bs)) [0..<?q], ?q * bs)"
    using gen_full_eq[OF assms, of 0 ?q n] q by simp
  have inner: "map (\<lambda>j. (j * bs, (j + 1) * bs)) [0..<?q] = map (\<lambda>k. (k * bs, min ((k + 1) * bs) n)) [0..<?q]"
  proof (rule map_cong[OF refl])
    fix k assume "k \<in> set [0..<?q]"
    then have "Suc k \<le> ?q" by simp
    then have "Suc k * bs \<le> ?q * bs" by (rule mult_le_mono1)
    then have "Suc k * bs \<le> n" using q by (rule le_trans)
    then have "(k + 1) * bs \<le> n" by simp
    then show "(k * bs, (k + 1) * bs) = (k * bs, min ((k + 1) * bs) n)" by simp
  qed
  show ?thesis
  proof (cases "?q * bs < n")
    case True
    have lt: "n < Suc ?q * bs" using assms by (metis dividend_less_div_times mult.commute mult_Suc add.commute)
    have c: "(n + bs - 1) div bs = Suc ?q"
    proof (rule div_nat_eqI)
      show "bs * Suc ?q \<le> n + bs - 1" using True assms by (simp add: algebra_simps)
      show "n + bs - 1 < bs * Suc (Suc ?q)" using lt assms by (simp add: algebra_simps)
    qed
    have "min ((?q + 1) * bs) n = n" using lt by simp
    then show ?thesis using assms True full inner c by (simp add: gen_batches_def)
  next
    case False
    then have e: "?q * bs = n" using q by simp
    have c: "(n + bs - 1) div bs = ?q"
    proof (rule div_nat_eqI)
      show "bs * ?q \<le> n + bs - 1" using e assms by (simp add: algebra_simps)
      show "n + bs - 1 < bs * Suc ?q" using e assms by (simp add: algebra_simps)
    qed
    show ?thesis using assms False full inner c by (simp add: gen_batches_def)
  qed
qed

lemma gen_batches_nonempty:
  assumes "0 < bs" "0 < n"
  shows "\<exists>b bs'. gen_batches n bs = Inr (b # bs')"
proof -
  have "0 < (n + bs - 1) div bs" using assms by (simp add: div_greater_zero_iff)
  then obtain c where c: "(n + bs - 1) div bs = Suc c" by (cases "(n + bs - 1) div bs") auto
  show ?thesis unfolding gen_batches_eq[OF assms(1)] c
    by (simp add: upt_conv_Cons del: upt_Suc)
qed



section \<open>The clipping step\<close>

lemma np_clip_in_bounds:
  assumes "fl_le lo hi" and "x \<noteq> NaN"
  shows "in_bounds lo hi (np_clip x lo hi)"
  using assms
  by (cases lo; cases hi; cases x)
     (auto simp: in_bounds_def np_clip_def npy_min_def npy_max_def fl_le_def fl_gt_def)

lemma np_clip_NaN [simp]: "np_clip NaN lo hi = NaN"
  by (simp add: np_clip_def npy_min_def npy_max_def)

lemma np_clip_unbounded [simp]: "np_clip x NInf PInf = x"
  by (cases x) (simp_all add: np_clip_def npy_min_def npy_max_def fl_gt_def)

lemma clip_rows_Mat:
  "clip_rows i bs (Mat m rows # ps) = Inr ps' \<Longrightarrow> i \<le> length rows \<Longrightarrow>
   \<exists>rows'. ps' = Mat m rows' # ps \<and> length rows' = length rows \<and> i + length bs \<le> length rows
     \<and> (\<forall>j<length bs. rows' ! (i + j) =
           map (\<lambda>x. np_clip x (fst (bs ! j)) (snd (bs ! j))) (rows ! (i + j)))
     \<and> (\<forall>j<i. rows' ! j = rows ! j)
     \<and> (\<forall>j\<ge>i + length bs. rows' ! j = rows ! j)"
proof (induction bs arbitrary: i rows)
  case Nil
  then show ?case by auto
next
  case (Cons b bs)
  obtain lo hi where b: "b = (lo, hi)" by (cases b)
  from Cons.prems b have i: "i < length rows"
    by (auto split: if_splits)
  let ?rows1 = "rows[i := map (\<lambda>x. np_clip x lo hi) (rows ! i)]"
  from Cons.prems b i have "clip_rows (Suc i) bs (Mat m ?rows1 # ps) = Inr ps'"
    by simp
  from Cons.IH[OF this] i obtain rows' where r:
    "ps' = Mat m rows' # ps" "length rows' = length rows" "Suc i + length bs \<le> length rows"
    "\<forall>j<length bs. rows' ! (Suc i + j) =
        map (\<lambda>x. np_clip x (fst (bs ! j)) (snd (bs ! j))) (?rows1 ! (Suc i + j))"
    "\<forall>j<Suc i. rows' ! j = ?rows1 ! j"
    "\<forall>j\<ge>Suc i + length bs. rows' ! j = ?rows1 ! j"
    by auto
  have "rows' ! (i + j) =
           map (\<lambda>x. np_clip x (fst ((b # bs) ! j)) (snd ((b # bs) ! j))) (rows ! (i + j))"
    if "j < length (b # bs)" for j
  proof (cases j)
    case 0
    then show ?thesis using r(5) i b by simp
  next
    case (Suc j')
    then show ?thesis using r(4) that by simp
  qed
  moreover have "\<forall>j<i. rows' ! j = rows ! j" using r(5) by simp
  moreover have "\<forall>j\<ge>i + length (b # bs). rows' ! j = rows ! j" using r(6) by simp
  ultimately show ?case using r(1,2,3) by simp
qed

lemma clip_rows_Vec:
  "clip_rows i bs (Vec xs # ps) = Inr ps' \<Longrightarrow> \<exists>xs'. ps' = Vec xs' # ps"
proof (induction bs arbitrary: i xs)
  case Nil
  then show ?case by auto
next
  case (Cons b bs)
  then show ?case by (cases b) (auto split: if_splits)
qed

lemma clip_rows_Nil: "clip_rows i bs [] = Inr ps' \<Longrightarrow> ps' = []"
  by (cases bs) auto

lemma clip_establishes:
  assumes "update_coef_using_constrain lo hi ps = Inr ps'" and "ordered_bounds lo hi"
  shows "first_layer_within lo hi ps'"
proof (cases ps)
  case Nil
  then show ?thesis using assms(1) clip_rows_Nil
    by (fastforce simp: update_coef_using_constrain_def first_layer_within_def)
next
  case (Cons p ps0)
  show ?thesis
  proof (cases p)
    case (Vec xs)
    then show ?thesis using assms(1) Cons clip_rows_Vec[of 0 "zip lo hi" xs ps0 ps']
      by (auto simp: update_coef_using_constrain_def first_layer_within_def)
  next
    case (Mat m rows)
    from clip_rows_Mat[of 0 "zip lo hi" m rows ps0 ps'] assms(1) Cons Mat
    obtain rows' where r: "ps' = Mat m rows' # ps0" "length rows' = length rows"
      "length (zip lo hi) \<le> length rows"
      "\<forall>j<length (zip lo hi). rows' ! j =
           map (\<lambda>x. np_clip x (fst (zip lo hi ! j)) (snd (zip lo hi ! j))) (rows ! j)"
      by (auto simp: update_coef_using_constrain_def)
    have "i < length rows' \<and> list_all (\<lambda>x. x = NaN \<or> in_bounds (lo ! i) (hi ! i) x) (rows' ! i)"
      if i: "i < min (length lo) (length hi)" for i
    proof -
      have le: "fl_le (lo ! i) (hi ! i)"
        using assms(2) i by (auto simp: ordered_bounds_def list_all_length)
      have "rows' ! i = map (\<lambda>x. np_clip x (lo ! i) (hi ! i)) (rows ! i)"
        using r(4) i by simp
      moreover have "np_clip x (lo ! i) (hi ! i) = NaN \<or> in_bounds (lo ! i) (hi ! i) (np_clip x (lo ! i) (hi ! i))" for x
        using np_clip_in_bounds[OF le, of x] by (cases "x = NaN") auto
      ultimately show ?thesis using r(2,3) i by (auto simp: list_all_iff)
    qed
    then show ?thesis using r(1) by (simp add: first_layer_within_def list_all_iff)
  qed
qed

lemma store_params_simps [simp]:
  "coefs (store_params ps s) = take (length (coefs s)) ps"
  "intercepts (store_params ps s) = drop (length (coefs s)) ps"
  "sigint (store_params ps s) = sigint s"
  "optimizer (store_params ps s) = optimizer s"
  "n_iter (store_params ps s) = n_iter s"
  "emitted (store_params ps s) = emitted s"
  "best_coefs (store_params ps s) = best_coefs s"
  "best_intercepts (store_params ps s) = best_intercepts s"
  "no_improvement_count (store_params ps s) = no_improvement_count s"
  by (simp_all add: store_params_def)

lemma first_layer_within_take:
  "first_layer_within lo hi (take (Suc n) ps) = first_layer_within lo hi ps"
  by (cases ps) (simp_all add: first_layer_within_def)

lemma holds_clip_params:
  assumes "ordered_bounds lo hi"
  shows "holds (clip_params lo hi s) (\<lambda>s'. first_layer_within lo hi (coefs s')) (\<lambda>e s. True)"
proof (cases "update_coef_using_constrain lo hi (coefs s @ intercepts s)")
  case (Inl a)
  then show ?thesis by (cases a) (simp add: clip_params_def)
next
  case (Inr ps)
  have w: "first_layer_within lo hi ps" using clip_establishes[OF Inr assms] .
  have "first_layer_within lo hi (take (length (coefs s)) ps)"
  proof (cases "coefs s")
    case Nil
    then show ?thesis by (simp add: first_layer_within_def)
  next
    case (Cons c cs)
    then show ?thesis using w by (simp add: first_layer_within_take)
  qed
  then show ?thesis using Inr by (simp add: clip_params_def)
qed

lemma holds_trivial: "holds r (\<lambda>v. True) (\<lambda>e s. True)"
  by (cases r) auto

lemma batch_step_within:
  assumes "ordered_bounds lo hi"
  shows "holds (batch_step C h lo hi X y sl st)
           (\<lambda>(acc', s'). first_layer_within lo hi (coefs s')) (\<lambda>e s. True)"
proof -
  obtain acc s0 where st: "st = (acc, s0)" by (cases st)
  show ?thesis
    unfolding batch_step_def st prod.case
  proof (rule holds_bind[OF holds_trivial])
    fix s1 :: "('a, 'b) attrs"
    obtain bl cg ig where bp:
      "backprop C h (coefs s1) (intercepts s1) (slice_rows X sl) (slice_rows y sl) = (bl, cg, ig)"
      by (rule prod_cases3)
    show "holds
           (case backprop C h (coefs s1) (intercepts s1) (slice_rows X sl) (slice_rows y sl) of
              (batch_loss, coef_grads, intercept_grads) \<Rightarrow>
                bind_res (checkpoint s1) (\<lambda>s2.
                bind_res (optimizer_step C (coef_grads @ intercept_grads) s2) (\<lambda>s3.
                bind_res (checkpoint s3) (\<lambda>s4.
                bind_res (clip_params lo hi s4) (\<lambda>s5.
                  Inr (fadd C acc (fmul C batch_loss (Fin (real (snd sl - fst sl)))), s5))))))
           (\<lambda>(acc', s'). first_layer_within lo hi (coefs s')) (\<lambda>e s. True)"
      unfolding bp prod.case
      by (intro holds_bind[OF holds_trivial] holds_bind[OF holds_clip_params[OF assms]]) simp
  qed
qed

section \<open>What the steps of the loop keep\<close>

lemma holds_case_prod:
  assumes "\<And>a b. p = (a, b) \<Longrightarrow> holds (f a b) Q E"
  shows "holds (case p of (a, b) \<Rightarrow> f a b) Q E"
  using assms by (cases p) simp

lemma holds_if:
  assumes "c \<Longrightarrow> holds r1 Q E" and "\<not> c \<Longrightarrow> holds r2 Q E"
  shows "holds (if c then r1 else r2) Q E"
  using assms by simp

lemma holds_checkpoint_cases:
  assumes "sigint s = None \<Longrightarrow> Q s"
    and "\<And>j. sigint s = Some (Suc j) \<Longrightarrow> Q (s\<lparr>sigint := Some j\<rparr>)"
    and "sigint s = Some 0 \<Longrightarrow> E KeyboardInterrupt (s\<lparr>sigint := None\<rparr>)"
  shows "holds (checkpoint s) Q E"
proof (cases "sigint s")
  case None
  then show ?thesis using assms(1) by (simp add: checkpoint_def)
next
  case (Some k)
  then show ?thesis using assms(2,3) by (cases k) (simp_all add: checkpoint_def)
qed

lemma batch_frame_refl [simp]: "batch_frame s s"
  by (simp add: batch_frame_def)

lemma clip_rows_exn: "clip_rows i bs ps = Inl (e, ps') \<Longrightarrow> e = IndexError"
proof (induction i bs ps rule: clip_rows.induct)
  case (1 coef_idx params)
  then show ?case by simp
next
  case (2 coef_idx min_coef max_coef bounds params)
  then show ?case by (auto split: list.splits option.splits)
qed

lemma frame_checkpoint:
  assumes "batch_frame s s1"
  shows "holds (checkpoint s1) (batch_frame s)
           (\<lambda>e s'. batch_frame s s' \<and> (sigint s = None \<longrightarrow> e \<noteq> KeyboardInterrupt))"
  using assms by (intro holds_checkpoint_cases) (auto simp: batch_frame_def)

lemma frame_optimizer_step:
  assumes "batch_frame s s1"
  shows "holds (optimizer_step C grads s1) (batch_frame s)
           (\<lambda>e s'. batch_frame s s' \<and> (sigint s = None \<longrightarrow> e \<noteq> KeyboardInterrupt))"
  using assms
  by (auto simp: optimizer_step_def with_optimizer_def batch_frame_def
           split: option.splits prod.splits)

lemma frame_clip_params:
  assumes "batch_frame s s1"
  shows "holds (clip_params lo hi s1) (batch_frame s)
           (\<lambda>e s'. batch_frame s s' \<and> (sigint s = None \<longrightarrow> e \<noteq> KeyboardInterrupt))"
  using assms
  by (auto simp: clip_params_def update_coef_using_constrain_def batch_frame_def
           split: sum.splits dest: clip_rows_exn)

lemma frame_batch_step:
  "holds (batch_step C h lo hi X y sl (acc, s)) (\<lambda>(acc', s'). batch_frame s s')
     (\<lambda>e s'. batch_frame s s' \<and> (sigint s = None \<longrightarrow> e \<noteq> KeyboardInterrupt))"
  unfolding batch_step_def prod.case
  by (intro holds_bind[OF frame_checkpoint] holds_bind[OF frame_optimizer_step]
        holds_bind[OF frame_clip_params] holds_case_prod)
     simp_all

lemma end_frame_refl [simp]: "end_frame 0 s s"
  by (simp add: end_frame_def)

lemma bookkeeping_simps [simp]:
  "coefs (bookkeeping C h X n acc s) = coefs s"
  "intercepts (bookkeeping C h X n acc s) = intercepts s"
  "n_iter (bookkeeping C h X n acc s) = n_iter s + 1"
  "sigint (bookkeeping C h X n acc s) = sigint s"
  "optimizer (bookkeeping C h X n acc s) = optimizer s"
  "best_coefs (bookkeeping C h X n acc s) = best_coefs s"
  "best_intercepts (bookkeeping C h X n acc s) = best_intercepts s"
  by (simp_all add: bookkeeping_def Let_def)

lemma end_checkpoint:
  assumes "end_frame d s s1" "d = 0 \<or> d = 1"
  shows "holds (checkpoint s1) (end_frame d s) (end_exn s)"
  using assms by (intro holds_checkpoint_cases) (auto simp: end_frame_def end_exn_def)

lemma end_rule:
  assumes "end_frame 1 s s1"
  shows "holds (no_improvement_rule C h es s1) (\<lambda>(b, s'). end_frame 1 s s') (end_exn s)"
  unfolding no_improvement_rule_def Let_def
  apply (intro holds_if holds_bind[OF end_checkpoint[OF assms]] holds_with_optimizer)
  using assms
      apply (auto simp: end_frame_def end_exn_def split: prod.splits)
  done

lemma frame_epoch_end:
  "holds (epoch_end C h es val inc X n (acc, s)) (\<lambda>(b, s'). end_frame 1 s s') (end_exn s)"
  unfolding epoch_end_def prod.case
  apply (rule holds_bind[OF end_checkpoint[of 0]])
    apply simp
   apply simp
  apply (rule holds_bind[OF end_checkpoint[of 1]])
    apply (simp add: end_frame_def)
   apply simp
  apply (intro holds_case_prod)
  apply (rule holds_bind[OF end_checkpoint[of 1]])
    apply (simp add: end_frame_def)
   apply simp
  apply (rule holds_with_optimizer)
   apply (rule holds_bind[OF end_rule])
    apply (simp add: end_frame_def)
   apply (auto simp: end_frame_def end_exn_def)
  done

section \<open>Bounds on the first weight matrix\<close>

lemma batch_step_establishes:
  assumes "ordered_bounds lo hi" and "sigint (snd st) = None"
  shows "holds (batch_step C h lo hi X y sl st)
           (\<lambda>(acc', s'). sigint s' = None \<and> first_layer_within lo hi (coefs s'))
           (\<lambda>e s'. e \<noteq> KeyboardInterrupt)"
proof -
  obtain acc s where st: "st = (acc, s)" by (cases st)
  have q: "sigint s = None" using assms(2) st by simp
  show ?thesis
    unfolding st
    using holds_conj[OF batch_step_within[OF assms(1), of C h X y sl "(acc, s)"]
                        frame_batch_step[of C h lo hi X y sl acc s]]
    by (rule holds_weaken) (use q in \<open>auto simp: batch_frame_def\<close>)
qed

lemma batches_establish:
  assumes "ordered_bounds lo hi" and "sigint s = None" and "batches \<noteq> []"
  shows "holds (for_each batches (batch_step C h lo hi X y) (acc, s))
           (\<lambda>(acc', s'). sigint s' = None \<and> first_layer_within lo hi (coefs s'))
           (\<lambda>e s'. e \<noteq> KeyboardInterrupt)"
proof -
  obtain b bs where batches: "batches = b # bs" using assms(3) by (cases batches) auto
  show ?thesis
    unfolding batches for_each.simps
  proof (rule holds_bind[OF batch_step_establishes[OF assms(1)]])
    show "sigint (snd (acc, s)) = None" using assms(2) by simp
  next
    fix v :: "fl \<times> ('a, 'b) attrs"
    assume v: "case v of (acc', s') \<Rightarrow> sigint s' = None \<and> first_layer_within lo hi (coefs s')"
    show "holds (for_each bs (batch_step C h lo hi X y) v)
           (\<lambda>(acc', s'). sigint s' = None \<and> first_layer_within lo hi (coefs s'))
           (\<lambda>e s'. e \<noteq> KeyboardInterrupt)"
    proof (rule holds_for_each[where
             Q = "\<lambda>(acc', s'). sigint s' = None \<and> first_layer_within lo hi (coefs s')", OF v])
      fix x and v' :: "fl \<times> ('a, 'b) attrs"
      assume "case v' of (acc', s') \<Rightarrow> sigint s' = None \<and> first_layer_within lo hi (coefs s')"
      then have "sigint (snd v') = None" by (cases v') simp
      from batch_step_establishes[OF assms(1) this]
      show "holds (batch_step C h lo hi X y x v')
             (\<lambda>(acc', s'). sigint s' = None \<and> first_layer_within lo hi (coefs s'))
             (\<lambda>e s'. e \<noteq> KeyboardInterrupt)" .
    qed
  qed
qed

lemma epoch_end_keeps:
  assumes "sigint s = None" and "P (coefs s)"
  shows "holds (epoch_end C h es val inc X n (acc, s))
           (\<lambda>(b, s'). sigint s' = None \<and> P (coefs s'))
           (\<lambda>e s'. e \<noteq> KeyboardInterrupt)"
  using frame_epoch_end[of C h es val inc X n acc s]
  by (rule holds_weaken) (use assms in \<open>auto simp: end_frame_def end_exn_def\<close>)

lemma epoch_establishes:
  assumes "ordered_bounds lo hi" and "sigint s = None" and "n = 0 \<longrightarrow> nat bs = 0"
  shows "holds (epoch C h lo hi es val inc X y n bs s)
           (\<lambda>(b, s'). sigint s' = None \<and> first_layer_within lo hi (coefs s'))
           (\<lambda>e s'. e \<noteq> KeyboardInterrupt)"
proof (cases "nat bs = 0")
  case True
  then show ?thesis by (simp add: epoch_def gen_batches_def)
next
  case False
  then have pos: "0 < nat bs" "0 < n" using assms(3) by auto
  from gen_batches_nonempty[OF pos] obtain b bs' where g: "gen_batches n (nat bs) = Inr (b # bs')"
    by blast
  show ?thesis
    unfolding epoch_def g sum.case
  proof (rule holds_bind[OF batches_establish[OF assms(1,2)]])
    fix v :: "fl \<times> ('a, 'b) attrs"
    assume "case v of (acc', s') \<Rightarrow> sigint s' = None \<and> first_layer_within lo hi (coefs s')"
    then obtain acc' s' where v: "v = (acc', s')" "sigint s' = None"
      "first_layer_within lo hi (coefs s')" by (cases v) auto
    show "holds (epoch_end C h es val inc X n v)
           (\<lambda>(b, s'). sigint s' = None \<and> first_layer_within lo hi (coefs s'))
           (\<lambda>e s'. e \<noteq> KeyboardInterrupt)"
      unfolding v(1) using v(2,3) by (rule epoch_end_keeps)
  qed simp
qed

lemma epochs_establish:
  assumes "ordered_bounds lo hi" and "sigint s = None" and "n = 0 \<longrightarrow> nat bs = 0" and "0 < k"
  shows "holds (for_range k (epoch C h lo hi es val inc X y n bs) s)
           (\<lambda>s'. sigint s' = None \<and> first_layer_within lo hi (coefs s'))
           (\<lambda>e s'. e \<noteq> KeyboardInterrupt)"
proof (rule holds_for_range[where
        I = "\<lambda>j s'. sigint s' = None \<and> (0 < j \<longrightarrow> first_layer_within lo hi (coefs s'))"])
  show "sigint s = None \<and> (0 < (0::nat) \<longrightarrow> first_layer_within lo hi (coefs s))"
    using assms(2) by simp
next
  fix j :: nat and s1 :: "('a, 'b) attrs"
  assume "sigint s1 = None \<and> (0 < j \<longrightarrow> first_layer_within lo hi (coefs s1))"
  then have "sigint s1 = None" by simp
  from epoch_establishes[OF assms(1) this assms(3)]
  show "holds (epoch C h lo hi es val inc X y n bs s1)
         (\<lambda>(b, s'). if b then sigint s' = None \<and> first_layer_within lo hi (coefs s')
                     else sigint s' = None \<and> (0 < Suc j \<longrightarrow> first_layer_within lo hi (coefs s')))
         (\<lambda>e s'. e \<noteq> KeyboardInterrupt)"
    by (rule holds_weaken) auto
next
  fix s1 :: "('a, 'b) attrs"
  assume "sigint s1 = None \<and> (0 < k \<longrightarrow> first_layer_within lo hi (coefs s1))"
  then show "sigint s1 = None \<and> first_layer_within lo hi (coefs s1)" using assms(4) by simp
qed

lemma resolve_batch_size_zero: "n = 0 \<longrightarrow> nat (snd (resolve_batch_size b n)) = 0"
  by (cases b) (auto simp: resolve_batch_size_def)

lemma setup_optimizer_simps [simp]:
  "coefs (setup_optimizer C h inc s) = coefs s"
  "intercepts (setup_optimizer C h inc s) = intercepts s"
  "n_iter (setup_optimizer C h inc s) = n_iter s"
  "emitted (setup_optimizer C h inc s) = emitted s"
  "sigint (setup_optimizer C h inc s) = sigint s"
  "framework_attrs (setup_optimizer C h inc s) = framework_attrs s"
  "best_coefs (setup_optimizer C h inc s) = best_coefs s"
  "best_intercepts (setup_optimizer C h inc s) = best_intercepts s"
  by (simp_all add: setup_optimizer_def Let_def split: solver.splits)

lemma guarded_quiet:
  assumes "holds (for_range k body s) Q (\<lambda>e s'. e \<noteq> KeyboardInterrupt)"
  shows "holds (case for_range k body s of
                  Inl (e, s') \<Rightarrow> if e = KeyboardInterrupt
                     then Inr (s'\<lparr>emitted := emitted s' @ [Warn TrainingInterrupted]\<rparr>)
                     else Inl (e, s')
                | Inr s' \<Rightarrow> Inr s') Q (\<lambda>e s'. True)"
  using assms by (cases "for_range k body s") auto

lemma fit_stochastic_within:
  assumes "ordered_bounds lo hi" and "\<not> early_stopping h" and "0 < max_iter h"
  shows "holds (fit_constrained_stochastic C g None h lo hi n_out X y inc s)
           (\<lambda>s'. first_layer_within lo hi (coefs s')) (\<lambda>e s'. True)"
proof -
  obtain ws bs where r: "resolve_batch_size (batch_size h) (shape0 X) = (ws, bs)"
    by (cases "resolve_batch_size (batch_size h) (shape0 X)")
  have z: "shape0 X = 0 \<longrightarrow> nat bs = 0"
    using r by (cases "batch_size h") (auto simp: resolve_batch_size_def)
  have k: "0 < nat (max_iter h)" using assms(3) by simp
  let ?s = "(setup_optimizer C h inc s)\<lparr>emitted := emitted (setup_optimizer C h inc s) @ map Warn ws,
              sigint := None\<rparr>"
  have "holds (guarded_epochs C h lo hi False None inc X y (shape0 X) bs ?s)
          (\<lambda>s'. sigint s' = None \<and> first_layer_within lo hi (coefs s')) (\<lambda>e s'. True)"
    unfolding guarded_epochs_def
    by (rule guarded_quiet, rule epochs_establish[OF assms(1) _ z k]) simp
  then show ?thesis
    using assms(2) r
    by (cases "guarded_epochs C h lo hi False None inc X y (shape0 X) bs ?s")
       (auto simp: fit_constrained_stochastic_def before_training_def validation_split_def
          Let_def bind_res_def restore_best_def after_training_def)
qed

lemma isfinite_not_NaN: "isfinite x \<Longrightarrow> x \<noteq> NaN"
  by (cases x) auto

lemma within_finite:
  assumes "first_layer_within lo hi cs" and "list_all all_finite cs"
  shows "first_layer_in lo hi cs"
proof (cases cs)
  case Nil
  then show ?thesis by (simp add: first_layer_in_def)
next
  case (Cons c cs')
  show ?thesis
  proof (cases c)
    case (Vec xs)
    then show ?thesis using Cons by (simp add: first_layer_in_def)
  next
    case (Mat m rows)
    have fin: "\<forall>r\<in>set rows. \<forall>x\<in>set r. x \<noteq> NaN"
      using assms(2) Cons Mat by (auto simp: list_all_iff dest: isfinite_not_NaN)
    have "list_all (in_bounds (lo ! i) (hi ! i)) (rows ! i)"
      if i: "i < min (length lo) (length hi)" for i
    proof -
      from assms(1) i have r: "i < length rows"
        and w: "\<forall>x\<in>set (rows ! i). x = NaN \<or> in_bounds (lo ! i) (hi ! i) x"
        unfolding Cons Mat first_layer_within_def by (auto simp: list_all_iff)
      from r have "rows ! i \<in> set rows" by simp
      with fin have "\<forall>x\<in>set (rows ! i). x \<noteq> NaN" by blast
      with w show ?thesis by (auto simp: list_all_iff)
    qed
    moreover have "i < length rows" if "i < min (length lo) (length hi)" for i
      using assms(1) that unfolding Cons Mat first_layer_within_def by (auto simp: list_all_iff)
    ultimately show ?thesis
      unfolding Cons Mat first_layer_in_def by (auto simp: list_all_iff)
  qed
qed

lemma constrained_fit_InrD:
  assumes "constrained_fit C g i h lo hi prev X y inc = Inr s'"
  shows "\<exists>g' n_out X1 y2 s. prepare_fit C g h prev X y inc = Inr (g', n_out, X1, y2, s)
           \<and> fit_constrained_stochastic C g' i h lo hi n_out X1 y2 inc (s\<lparr>emitted := []\<rparr>) = Inr s'
           \<and> list_all all_finite (coefs s' @ intercepts s')
           \<and> (solver h = Sgd \<or> solver h = Adam)"
  using assms
  by (auto simp: constrained_fit_def split: sum.splits prod.splits if_splits)

text \<open>
  Claim C1, as amended. The claim as stated fails: \<open>fit\<close> does not check that
  \<open>min_coef[i] \<le> max_coef[i]\<close>, and clipping leaves a not-a-number entry as it is. When
  every lower bound is at most its upper bound, every batch step that completes leaves
  each row \<open>i\<close> of the first weight matrix with all entries in
  \<open>[min_coef[i], max_coef[i]]\<close>, but for entries that the optimizer's update has made
  not-a-number; and when a fit without early stopping and without interruption, of at
  least one epoch, returns, each row \<open>i\<close> of the first weight matrix has all its entries
  in \<open>[min_coef[i], max_coef[i]]\<close>. With \<open>min_coef = 0\<close> and no upper bound: all these
  weights are \<open>\<ge> 0\<close>.
\<close>

theorem clipping_keeps_bounds:
  assumes "ordered_bounds min_coef max_coef"
  shows "(\<forall>acc' s'. batch_step C h min_coef max_coef X y sl (acc, s) = Inr (acc', s')
            \<longrightarrow> first_layer_within min_coef max_coef (coefs s'))
       \<and> (\<forall>s'. constrained_fit C g None h min_coef max_coef prev X y False = Inr s'
                 \<and> \<not> early_stopping h \<and> 0 < max_iter h
            \<longrightarrow> first_layer_in min_coef max_coef (coefs s'))"
proof (intro conjI allI impI)
  fix acc' s'
  assume "batch_step C h min_coef max_coef X y sl (acc, s) = Inr (acc', s')"
  with batch_step_within[OF assms, of C h X y sl "(acc, s)"]
  show "first_layer_within min_coef max_coef (coefs s')" by simp
next
  fix s'
  assume a: "constrained_fit C g None h min_coef max_coef prev X y False = Inr s'
                 \<and> \<not> early_stopping h \<and> 0 < max_iter h"
  from constrained_fit_InrD[of C g None h min_coef max_coef prev X y False s'] a
  obtain g' n_out X1 y2 s0 where
    f: "fit_constrained_stochastic C g' None h min_coef max_coef n_out X1 y2 False
          (s0\<lparr>emitted := []\<rparr>) = Inr s'"
    and fin: "list_all all_finite (coefs s' @ intercepts s')"
    by blast
  from fit_stochastic_within[OF assms, of h C g' n_out X1 y2 False "s0\<lparr>emitted := []\<rparr>"] a f
  have "first_layer_within min_coef max_coef (coefs s')" by simp
  moreover from fin have "list_all all_finite (coefs s')" by simp
  ultimately show "first_layer_in min_coef max_coef (coefs s')" by (rule within_finite)
qed

theorem clipping_keeps_bounds_witness:
  "ordered_bounds [Fin 0] [PInf]
   \<and> constrained_fit toy 0 None toy_hyper [Fin 0] [PInf] None toy_X toy_y False =
       Inr \<lparr>coefs = [Mat 1 [[Fin 0]]], intercepts = [Vec [Fin (- 2)]], n_iter = 2, t = 6,
            loss = Fin 1, loss_curve = [Fin 1, Fin 1], no_improvement_count = 2,
            best_coefs = Some [Mat 1 [[Fin 0]]], best_intercepts = Some [Vec [Fin (- 2)]],
            optimizer = Some 2, framework_attrs = (), emitted = [Warn (MaxIterReached 2)],
            sigint = None\<rparr>
   \<and> \<not> early_stopping toy_hyper \<and> 0 < max_iter toy_hyper
   \<and> first_layer_in [Fin 0] [PInf] [Mat 1 [[Fin 0]]]"
proof -
  have o: "ordered_bounds [Fin 0] [PInf]" by code_simp
  have f: "constrained_fit toy 0 None toy_hyper [Fin 0] [PInf] None toy_X toy_y False =
       Inr \<lparr>coefs = [Mat 1 [[Fin 0]]], intercepts = [Vec [Fin (- 2)]], n_iter = 2, t = 6,
            loss = Fin 1, loss_curve = [Fin 1, Fin 1], no_improvement_count = 2,
            best_coefs = Some [Mat 1 [[Fin 0]]], best_intercepts = Some [Vec [Fin (- 2)]],
            optimizer = Some 2, framework_attrs = (), emitted = [Warn (MaxIterReached 2)],
            sigint = None\<rparr>"
    by code_simp
  have h: "\<not> early_stopping toy_hyper \<and> 0 < max_iter toy_hyper" by (simp add: toy_hyper_def)
  from clipping_keeps_bounds[OF o, where C = toy and h = toy_hyper and X = toy_X and y = toy_y
      and g = 0 and prev = None] f h
  have "first_layer_in [Fin 0] [PInf] [Mat 1 [[Fin 0]]]" by simp
  with o f h show ?thesis by simp
qed

text \<open>
  Counterexample to C1 as stated: a fit with \<open>min_coef = 0\<close> and \<open>max_coef = -1\<close> ends with
  the first-layer weight \<open>-1\<close>, and clipping into \<open>[0, +inf]\<close> leaves a not-a-number
  weight not-a-number.
\<close>

theorem clipping_keeps_bounds_counterexample:
  "fit toy 0 None toy_hyper None toy_X toy_y (Some (Vec [Fin 0])) (Some (Vec [Fin (- 1)])) =
     Inr \<lparr>coefs = [Mat 1 [[Fin (- 1)]]], intercepts = [Vec [Fin (- 2)]], n_iter = 2, t = 6,
          loss = Fin 1, loss_curve = [Fin 1, Fin 1], no_improvement_count = 2,
          best_coefs = Some [Mat 1 [[Fin (- 1)]]], best_intercepts = Some [Vec [Fin (- 2)]],
          optimizer = Some 2, framework_attrs = (), emitted = [Warn (MaxIterReached 2)],
          sigint = None\<rparr>
   \<and> \<not> fl_le (Fin 0) (Fin (- 1))
   \<and> clip_params [Fin 0] [PInf] (toy_attrs\<lparr>coefs := [Mat 1 [[NaN]]]\<rparr>) =
       Inr (toy_attrs\<lparr>coefs := [Mat 1 [[NaN]]]\<rparr>)
   \<and> \<not> fl_le (Fin 0) NaN"
  by code_simp

section \<open>Unbounded clipping and the baseline\<close>




lemma store_params_same [simp]: "store_params (coefs s @ intercepts s) s = s"
  by (simp add: store_params_def)





lemma optimizer_step_sigint: "optimizer_step C grads s = Inr s' \<Longrightarrow> sigint s' = sigint s"
  by (auto simp: optimizer_step_def with_optimizer_def split: option.splits prod.splits)

lemma optimizer_step_optimizer: "optimizer_step C grads s = Inr s' \<Longrightarrow> optimizer s' \<noteq> None"
  by (auto simp: optimizer_step_def with_optimizer_def split: option.splits prod.splits)

lemma batch_step_quiet:
  assumes "sigint s = None"
  shows "batch_step C h lo hi X y sl (acc, s) =
     (case backprop C h (coefs s) (intercepts s) (slice_rows X sl) (slice_rows y sl) of
        (batch_loss, coef_grads, intercept_grads) \<Rightarrow>
          bind_res (optimizer_step C (coef_grads @ intercept_grads) s) (\<lambda>s3.
          bind_res (clip_params lo hi s3) (\<lambda>s5.
            Inr (fadd C acc (fmul C batch_loss (Fin (real (snd sl - fst sl)))), s5))))"
proof -
  obtain bl cg ig where bp:
    "backprop C h (coefs s) (intercepts s) (slice_rows X sl) (slice_rows y sl) = (bl, cg, ig)"
    by (rule prod_cases3)
  show ?thesis
  proof (cases "optimizer_step C (cg @ ig) s")
    case (Inl a)
    then show ?thesis using assms bp by (simp add: batch_step_def bind_res_def)
  next
    case (Inr s3)
    then have "sigint s3 = None" using optimizer_step_sigint assms by fastforce
    then show ?thesis using assms bp Inr by (simp add: batch_step_def bind_res_def)
  qed
qed














lemma shape_map_array [simp]: "shape (map_array f a) = shape a"
  by (cases a) simp_all




section \<open>The order of update and clipping\<close>

text \<open>
  Claim C3, as amended. The wrapper does not touch the gradients: in every batch step
  (one that no interrupt cuts short) the optimizer updates the parameters with the
  gradients exactly as backpropagation returned them, and the wrapper then overwrites the
  first layer's weights, as the optimizer's update has left them, in place with their
  clipped values.
\<close>

theorem clipping_follows_update:
  assumes "sigint s = None" and "optimizer s = Some opt"
    and "backprop C h (coefs s) (intercepts s) (slice_rows X sl) (slice_rows y sl) =
           (batch_loss, coef_grads, intercept_grads)"
    and "update_params C opt (coefs s @ intercepts s) (coef_grads @ intercept_grads) = (opt', params')"
    and "s3 = store_params params' (s\<lparr>optimizer := Some opt'\<rparr>)"
  shows "batch_step C h min_coef max_coef X y sl (acc, s) =
           (case update_coef_using_constrain min_coef max_coef (coefs s3 @ intercepts s3) of
              Inl (e, params'') \<Rightarrow> Inl (e, store_params params'' s3)
            | Inr params'' \<Rightarrow>
                Inr (fadd C acc (fmul C batch_loss (Fin (real (snd sl - fst sl)))),
                     store_params params'' s3))"
  using assms
  by (simp add: batch_step_quiet optimizer_step_def with_optimizer_def bind_res_def
        clip_params_def split: sum.splits prod.splits)

theorem clipping_follows_update_witness:
  "sigint (toy_attrs\<lparr>optimizer := Some 0\<rparr>) = None
   \<and> optimizer (toy_attrs\<lparr>optimizer := Some 0\<rparr>) = Some 0
   \<and> backprop toy toy_hyper [Mat 1 [[Fin (1 / 2)]]] [Vec [Fin 0]] (Mat 1 [[Fin 5]]) (Vec [Fin 1]) =
       (Fin 1, [Mat 1 [[Fin 5]]], [Vec [Fin 5]])
   \<and> update_params toy 0 [Mat 1 [[Fin (1 / 2)]], Vec [Fin 0]] [Mat 1 [[Fin 5]], Vec [Fin 5]] =
       (1, [Mat 1 [[Fin (- (9 / 2))]], Vec [Fin (- 5)]])
   \<and> batch_step toy toy_hyper [Fin 0] [Fin 1] (Mat 1 [[Fin 5]]) (Vec [Fin 1]) (0, 1)
        (Fin 0, toy_attrs\<lparr>optimizer := Some 0\<rparr>) =
       Inr (Fin 1, toy_attrs\<lparr>optimizer := Some 1, coefs := [Mat 1 [[Fin 0]]],
                              intercepts := [Vec [Fin (- 5)]]\<rparr>)"
proof -
  let ?s = "toy_attrs\<lparr>optimizer := Some 0\<rparr>"
  have a: "sigint ?s = None" "optimizer ?s = Some 0" by (simp_all add: toy_attrs_def)
  have b: "backprop toy toy_hyper (coefs ?s) (intercepts ?s) (slice_rows (Mat 1 [[Fin 5]]) (0, 1))
             (slice_rows (Vec [Fin 1]) (0, 1)) = (Fin 1, [Mat 1 [[Fin 5]]], [Vec [Fin 5]])"
    by code_simp
  have u: "update_params toy 0 (coefs ?s @ intercepts ?s) ([Mat 1 [[Fin 5]]] @ [Vec [Fin 5]]) =
             (1, [Mat 1 [[Fin (- (9 / 2))]], Vec [Fin (- 5)]])"
    by code_simp
  have e: "(case update_coef_using_constrain [Fin 0] [Fin 1]
                   (coefs (store_params [Mat 1 [[Fin (- (9 / 2))]], Vec [Fin (- 5)]] (?s\<lparr>optimizer := Some 1\<rparr>)) @
                    intercepts (store_params [Mat 1 [[Fin (- (9 / 2))]], Vec [Fin (- 5)]] (?s\<lparr>optimizer := Some 1\<rparr>))) of
              Inl (e, params'') \<Rightarrow> Inl (e, store_params params'' (store_params [Mat 1 [[Fin (- (9 / 2))]], Vec [Fin (- 5)]] (?s\<lparr>optimizer := Some 1\<rparr>)))
            | Inr params'' \<Rightarrow>
                Inr (fadd toy (Fin 0) (fmul toy (Fin 1) (Fin (real (snd (0::nat, 1::nat) - fst (0::nat, 1::nat))))),
                     store_params params'' (store_params [Mat 1 [[Fin (- (9 / 2))]], Vec [Fin (- 5)]] (?s\<lparr>optimizer := Some 1\<rparr>))))
           = Inr (Fin 1, toy_attrs\<lparr>optimizer := Some 1, coefs := [Mat 1 [[Fin 0]]],
                              intercepts := [Vec [Fin (- 5)]]\<rparr>)"
    by code_simp
  have b': "backprop toy toy_hyper [Mat 1 [[Fin (1 / 2)]]] [Vec [Fin 0]] (Mat 1 [[Fin 5]]) (Vec [Fin 1]) =
       (Fin 1, [Mat 1 [[Fin 5]]], [Vec [Fin 5]])" by code_simp
  have u': "update_params toy 0 [Mat 1 [[Fin (1 / 2)]], Vec [Fin 0]] [Mat 1 [[Fin 5]], Vec [Fin 5]] =
       (1, [Mat 1 [[Fin (- (9 / 2))]], Vec [Fin (- 5)]])" by code_simp
  from clipping_follows_update[OF a b u refl, of "[Fin 0]" "[Fin 1]" "Fin 0"]
  have "batch_step toy toy_hyper [Fin 0] [Fin 1] (Mat 1 [[Fin 5]]) (Vec [Fin 1]) (0, 1) (Fin 0, ?s) =
       Inr (Fin 1, toy_attrs\<lparr>optimizer := Some 1, coefs := [Mat 1 [[Fin 0]]],
                              intercepts := [Vec [Fin (- 5)]]\<rparr>)"
    unfolding e .
  with a b' u' show ?thesis by simp
qed

text \<open>
  Counterexample to C3 as stated: on the same batch the source's step ends with the first
  weight \<open>0\<close> (the updated weight \<open>1/2 - 5\<close> clipped into \<open>[0, 1]\<close>), while clipping the
  gradient \<open>5\<close> into \<open>[0, 1]\<close> before the optimizer applies it would end with \<open>1/2 - 1\<close>.
\<close>

theorem clipping_follows_update_counterexample:
  "batch_step toy toy_hyper [Fin 0] [Fin 1] (Mat 1 [[Fin 5]]) (Vec [Fin 1]) (0, 1)
     (Fin 0, toy_attrs\<lparr>optimizer := Some 0\<rparr>) =
     Inr (Fin 1, toy_attrs\<lparr>optimizer := Some 1, coefs := [Mat 1 [[Fin 0]]],
                            intercepts := [Vec [Fin (- 5)]]\<rparr>)
   \<and> batch_step_clipping_gradients toy toy_hyper [Fin 0] [Fin 1] (Mat 1 [[Fin 5]]) (Vec [Fin 1])
       (0, 1) (Fin 0, toy_attrs\<lparr>optimizer := Some 0\<rparr>) =
     Inr (Fin 1, toy_attrs\<lparr>optimizer := Some 1, coefs := [Mat 1 [[Fin (- (1 / 2))]]],
                            intercepts := [Vec [Fin (- 5)]]\<rparr>)
   \<and> batch_step toy toy_hyper [Fin 0] [Fin 1] (Mat 1 [[Fin 5]]) (Vec [Fin 1]) (0, 1)
       (Fin 0, toy_attrs\<lparr>optimizer := Some 0\<rparr>) \<noteq>
     batch_step_clipping_gradients toy toy_hyper [Fin 0] [Fin 1] (Mat 1 [[Fin 5]]) (Vec [Fin 1])
       (0, 1) (Fin 0, toy_attrs\<lparr>optimizer := Some 0\<rparr>)"
  by code_simp

section \<open>The no-improvement rule\<close>




section \<open>Interruption\<close>






section \<open>The number of epochs\<close>





section \<open>Completion of the training\<close>



















section \<open>The check of the fitted parameters\<close>

lemma all_finite_entries: "all_finite a = (\<forall>x\<in>set (flatten a). isfinite x)"
  by (cases a) (auto simp: list_all_iff)

text \<open>
  Claim C8. When the training has returned, \<open>fit\<close> raises a ValueError if some entry of
  some weight matrix or intercept vector is not finite, and returns the fitted estimator
  if all entries are finite.
\<close>

theorem non_finite_is_fatal:
  assumes "verify_coef C (shape_last X) min_coef NInf = Inr lo"
    and "verify_coef C (shape_last X) max_coef PInf = Inr hi"
    and "prepare_fit C g h prev X y False = Inr (g', n_out, X1, y2, s)"
    and "solver h = Sgd \<or> solver h = Adam"
    and "fit_constrained_stochastic C g' i h (flatten lo) (flatten hi) n_out X1 y2 False
           (s\<lparr>emitted := []\<rparr>) = Inr s'"
  shows "fit C g i h prev X y min_coef max_coef =
           (if \<forall>a\<in>set (coefs s' @ intercepts s'). \<forall>x\<in>set (flatten a). isfinite x
            then Inr s'
            else Inl (ValueError ''Solver produced non-finite parameter weights''))"
proof -
  have "list_all all_finite (coefs s' @ intercepts s') =
        (\<forall>a\<in>set (coefs s' @ intercepts s'). \<forall>x\<in>set (flatten a). isfinite x)"
    by (simp add: list_all_iff all_finite_entries)
  then show ?thesis
    using assms by (simp add: fit_def constrained_fit_def)
qed

theorem non_finite_is_fatal_witness:
  "verify_coef toy (shape_last (Mat 1 [[PInf]])) (Some (Vec [Fin 0])) NInf = Inr (Vec [Fin 0])
   \<and> verify_coef toy (shape_last (Mat 1 [[PInf]])) None PInf = Inr (Vec [PInf])
   \<and> prepare_fit toy 0 toy_hyper None (Mat 1 [[PInf]]) (Vec [Fin 1]) False =
       Inr (0, 1, Mat 1 [[PInf]], Mat 1 [[Fin 1]], toy_attrs)
   \<and> solver toy_hyper = Sgd
   \<and> fit_constrained_stochastic toy 0 None toy_hyper [Fin 0] [PInf] 1 (Mat 1 [[PInf]])
        (Mat 1 [[Fin 1]]) False (toy_attrs\<lparr>emitted := []\<rparr>) =
       Inr (toy_attrs\<lparr>coefs := [Mat 1 [[NaN]]], intercepts := [Vec [NaN]], n_iter := 2, t := 2,
              loss := Fin 1, loss_curve := [Fin 1, Fin 1], no_improvement_count := 2,
              best_coefs := Some [Mat 1 [[NaN]]], best_intercepts := Some [Vec [NaN]],
              optimizer := Some 2, emitted := [Warn (MaxIterReached 2)]\<rparr>)
   \<and> fit toy 0 None toy_hyper None (Mat 1 [[PInf]]) (Vec [Fin 1]) (Some (Vec [Fin 0])) None =
       Inl (ValueError ''Solver produced non-finite parameter weights'')"
proof -
  let ?r = "toy_attrs\<lparr>coefs := [Mat 1 [[NaN]]], intercepts := [Vec [NaN]], n_iter := 2, t := 2,
              loss := Fin 1, loss_curve := [Fin 1, Fin 1], no_improvement_count := 2,
              best_coefs := Some [Mat 1 [[NaN]]], best_intercepts := Some [Vec [NaN]],
              optimizer := Some 2, emitted := [Warn (MaxIterReached 2)]\<rparr>"
  have a: "verify_coef toy (shape_last (Mat 1 [[PInf]])) (Some (Vec [Fin 0])) NInf = Inr (Vec [Fin 0])"
    by code_simp
  have b: "verify_coef toy (shape_last (Mat 1 [[PInf]])) None PInf = Inr (Vec [PInf])"
    by code_simp
  have p: "prepare_fit toy 0 toy_hyper None (Mat 1 [[PInf]]) (Vec [Fin 1]) False =
       Inr (0, 1, Mat 1 [[PInf]], Mat 1 [[Fin 1]], toy_attrs)"
    by code_simp
  have sg: "solver toy_hyper = Sgd" by (simp add: toy_hyper_def)
  have f: "fit_constrained_stochastic toy 0 None toy_hyper (flatten (Vec [Fin 0])) (flatten (Vec [PInf]))
             1 (Mat 1 [[PInf]]) (Mat 1 [[Fin 1]]) False (toy_attrs\<lparr>emitted := []\<rparr>) = Inr ?r"
    by code_simp
  have nf: "\<not> (\<forall>a\<in>set (coefs ?r @ intercepts ?r). \<forall>x\<in>set (flatten a). isfinite x)"
    by simp
  from non_finite_is_fatal[OF a b p disjI1[OF sg] f] nf
  have "fit toy 0 None toy_hyper None (Mat 1 [[PInf]]) (Vec [Fin 1]) (Some (Vec [Fin 0])) None =
       Inl (ValueError ''Solver produced non-finite parameter weights'')"
    by (simp only: if_False)
  moreover from f have "fit_constrained_stochastic toy 0 None toy_hyper [Fin 0] [PInf] 1 (Mat 1 [[PInf]])
        (Mat 1 [[Fin 1]]) False (toy_attrs\<lparr>emitted := []\<rparr>) = Inr ?r" by simp
  ultimately show ?thesis using a b p sg by blast
qed

section \<open>Reproducibility\<close>

lemma prepare_fit_seeded:
  assumes "random_state h = Some seed"
  shows "map_sum id snd (prepare_fit C g1 h prev X y inc) =
         map_sum id snd (prepare_fit C g2 h prev X y inc)"
  using assms
  by (simp add: prepare_fit_def Let_def
        split: option.split sum.split prod.split ndarray.split)

lemma fit_stochastic_ignores_global_state:
  assumes "\<not> early_stopping h"
  shows "fit_constrained_stochastic C g1 i h lo hi n X y inc s =
         fit_constrained_stochastic C g2 i h lo hi n X y inc s"
  using assms
  by (simp add: fit_constrained_stochastic_def before_training_def validation_split_def)

lemma constrained_fit_by_data:
  assumes "\<not> early_stopping h"
  shows "constrained_fit C g i h lo hi prev X y inc =
     (case map_sum id snd (prepare_fit C g h prev X y inc) of
        Inl e \<Rightarrow> Inl e
      | Inr (n_outputs, X1, y2, s) \<Rightarrow>
          if solver h = Sgd \<or> solver h = Adam then
            (case fit_constrained_stochastic C g0 i h lo hi n_outputs X1 y2 inc (s\<lparr>emitted := []\<rparr>) of
               Inl (e, s') \<Rightarrow> Inl e
             | Inr s' \<Rightarrow>
                 if list_all all_finite (coefs s' @ intercepts s') then Inr s'
                 else Inl (ValueError ''Solver produced non-finite parameter weights''))
          else Inl AssertionError)"
proof (cases "prepare_fit C g h prev X y inc")
  case (Inl e)
  then show ?thesis by (simp add: constrained_fit_def)
next
  case (Inr r)
  obtain g' n X1 y2 s where r: "r = (g', n, X1, y2, s)" by (cases r)
  show ?thesis
    using Inr r fit_stochastic_ignores_global_state[OF assms, of C g' i lo hi n X1 y2 inc _ g0]
    by (simp add: constrained_fit_def)
qed

lemma fit_without_early_stopping_reproducible:
  assumes "random_state h = Some seed" and "\<not> early_stopping h"
  shows "fit C g1 i h prev X y min_coef max_coef = fit C g2 i h prev X y min_coef max_coef"
proof -
  have eq: "constrained_fit C g1 i h lo hi prev X y False = constrained_fit C g2 i h lo hi prev X y False"
    for lo hi
    unfolding constrained_fit_by_data[OF assms(2), where ?g0.0 = g1]
    by (simp add: prepare_fit_seeded[OF assms(1), of C g1 prev X y False g2])
  show ?thesis unfolding fit_def eq ..
qed

text \<open>
  Claim C4 fails on the code when early stopping is on: the validation split is drawn by
  \<open>train_test_split\<close> without a \<open>random_state\<close>, from numpy's global random state, so two
  fits with the same \<open>random_state\<close>, the same data and the same hyperparameters differ
  when the global state differs. Here: global states 0 and 1, \<open>random_state = 7\<close>.
\<close>

theorem early_stopping_split_unseeded:
  "random_state (toy_hyper\<lparr>early_stopping := True\<rparr>) = Some 7
   \<and> fit toy 0 None (toy_hyper\<lparr>early_stopping := True\<rparr>) None toy_X toy_y None None =
       Inr \<lparr>coefs = [Mat 1 [[Fin (- (7 / 2))]]], intercepts = [Vec [Fin (- 4)]], n_iter = 2,
            t = 4, loss = Fin 1, loss_curve = [Fin 1, Fin 1], no_improvement_count = 2,
            best_coefs = Some [Mat 1 [[Fin (- (7 / 2))]]],
            best_intercepts = Some [Vec [Fin (- 4)]], optimizer = Some 2,
            framework_attrs = (), emitted = [Warn (MaxIterReached 2)], sigint = None\<rparr>
   \<and> fit toy 1 None (toy_hyper\<lparr>early_stopping := True\<rparr>) None toy_X toy_y None None =
       Inr \<lparr>coefs = [Mat 1 [[Fin (- (11 / 2))]]], intercepts = [Vec [Fin (- 6)]], n_iter = 2,
            t = 4, loss = Fin 1, loss_curve = [Fin 1, Fin 1], no_improvement_count = 2,
            best_coefs = Some [Mat 1 [[Fin (- (11 / 2))]]],
            best_intercepts = Some [Vec [Fin (- 6)]], optimizer = Some 2,
            framework_attrs = (), emitted = [Warn (MaxIterReached 2)], sigint = None\<rparr>"
  by code_simp

section \<open>The batch size\<close>

lemma before_training_batch_size:
  assumes "before_training C g i h n_out X y inc s = (es, val, Xt, yt, n, bs, s0)"
  shows "n = shape0 Xt \<and> bs = snd (resolve_batch_size (batch_size h) n)
         \<and> emitted s0 = emitted s @ map Warn (fst (resolve_batch_size (batch_size h) n))"
  using assms
  by (auto simp: before_training_def Let_def split: prod.splits)

text \<open>
  Claim C10. A configured batch size below 1 or above the number of samples is no error:
  a warning is emitted and the size is clipped into \<open>[1, n_samples]\<close>, which the batch
  generator accepts; with \<open>"auto"\<close> the size is \<open>min(200, n_samples)\<close>. The training loop
  starts with this size and with the warning emitted.
\<close>

theorem batch_size_resolved:
  "resolve_batch_size Auto n = ([], min 200 (int n))
   \<and> resolve_batch_size (Size k) n =
       ((if k < 1 \<or> int n < k then [BatchSizeClipped] else []), min (max k 1) (int n))
   \<and> (0 < n \<longrightarrow>
        1 \<le> snd (resolve_batch_size b n) \<and> snd (resolve_batch_size b n) \<le> int n
        \<and> (\<exists>sl sls. gen_batches n (nat (snd (resolve_batch_size b n))) = Inr (sl # sls)))
   \<and> (before_training C g i h n_out X y inc s = (es, val, Xt, yt, n', bs, s0) \<longrightarrow>
        n' = shape0 Xt \<and> bs = snd (resolve_batch_size (batch_size h) n')
        \<and> emitted s0 = emitted s @ map Warn (fst (resolve_batch_size (batch_size h) n')))"
proof -
  have "1 \<le> snd (resolve_batch_size b n) \<and> snd (resolve_batch_size b n) \<le> int n
        \<and> (\<exists>sl sls. gen_batches n (nat (snd (resolve_batch_size b n))) = Inr (sl # sls))" if n: "0 < n"
  proof -
    have r: "1 \<le> snd (resolve_batch_size b n) \<and> snd (resolve_batch_size b n) \<le> int n"
      using n by (cases b) (auto simp: resolve_batch_size_def)
    then have "0 < nat (snd (resolve_batch_size b n))" by simp
    from gen_batches_nonempty[OF this n] r show ?thesis by simp
  qed
  moreover have "resolve_batch_size Auto n = ([], min 200 (int n))"
    by (simp add: resolve_batch_size_def)
  moreover have "resolve_batch_size (Size k) n =
       ((if k < 1 \<or> int n < k then [BatchSizeClipped] else []), min (max k 1) (int n))"
    by (simp add: resolve_batch_size_def)
  ultimately show ?thesis using before_training_batch_size[of C g i h n_out X y inc s es val Xt yt n' bs s0]
    by blast
qed

theorem batch_size_resolved_witness:
  "resolve_batch_size (Size 7) 3 = ([BatchSizeClipped], 3)
   \<and> resolve_batch_size (Size 0) 3 = ([BatchSizeClipped], 1)
   \<and> 0 < (3::nat) \<and> snd (resolve_batch_size (Size 7) 3) = 3
   \<and> gen_batches 3 (nat (snd (resolve_batch_size (Size 7) 3))) = Inr [(0, 3)]
   \<and> before_training toy 0 None (toy_hyper\<lparr>batch_size := Size 7\<rparr>) 1 toy_X toy_y False toy_attrs =
       (False, None, toy_X, toy_y, 3, 3,
        toy_attrs\<lparr>optimizer := Some 0, emitted := [Warn BatchSizeClipped]\<rparr>)
   \<and> emitted (toy_attrs\<lparr>optimizer := Some 0, emitted := [Warn BatchSizeClipped]\<rparr>) =
       emitted toy_attrs @ map Warn (fst (resolve_batch_size (batch_size (toy_hyper\<lparr>batch_size := Size 7\<rparr>)) 3))"
proof -
  have b: "before_training toy 0 None (toy_hyper\<lparr>batch_size := Size 7\<rparr>) 1 toy_X toy_y False toy_attrs =
       (False, None, toy_X, toy_y, 3, 3,
        toy_attrs\<lparr>optimizer := Some 0, emitted := [Warn BatchSizeClipped]\<rparr>)"
    by code_simp
  note t = batch_size_resolved[where n = 3 and k = 7 and b = "Size 7" and C = toy and g = 0
      and i = None and h = "toy_hyper\<lparr>batch_size := Size 7\<rparr>" and n_out = 1 and X = toy_X
      and y = toy_y and inc = False and s = toy_attrs and es = False and val = None
      and Xt = toy_X and yt = toy_y and n' = 3 and bs = 3
      and ?s0.0 = "toy_attrs\<lparr>optimizer := Some 0, emitted := [Warn BatchSizeClipped]\<rparr>"]
  note u = batch_size_resolved[where n = 3 and k = 0 and b = "Size 0" and C = toy and g = 0
      and i = None and h = toy_hyper and n_out = 1 and X = toy_X
      and y = toy_y and inc = False and s = toy_attrs and es = False and val = None
      and Xt = toy_X and yt = toy_y and n' = 3 and bs = 3 and ?s0.0 = toy_attrs]
  have e: "emitted (toy_attrs\<lparr>optimizer := Some 0, emitted := [Warn BatchSizeClipped]\<rparr>) =
       emitted toy_attrs @ map Warn (fst (resolve_batch_size (batch_size (toy_hyper\<lparr>batch_size := Size 7\<rparr>)) 3))"
    using t b by blast
  have "resolve_batch_size (Size 7) 3 = ([BatchSizeClipped], 3)" using t by simp
  moreover have "resolve_batch_size (Size 0) 3 = ([BatchSizeClipped], 1)" using u by simp
  moreover have "gen_batches 3 (nat (snd (resolve_batch_size (Size 7) 3))) = Inr [(0, 3)]"
    using t by (simp add: gen_batches_def)
  ultimately show ?thesis using b e by simp
qed

end
